theory Spec2Isabelle
  imports Main "HOL-Library.Sublist"
begin

section \<open>JavaScript values thrown by the remote calls\<close>

text \<open>
  A value that a remote call can throw (the \<^verbatim>\<open>err: any\<close> of \<^verbatim>\<open>formatError\<close>): a finite
  tree of JSON-like data, or an \<^verbatim>\<open>Error\<close> instance with its name, its message and its own
  other properties (axios puts \<^verbatim>\<open>response\<close> there). Numbers are restricted to integers.
  An object is the list of its entries.
\<close>

datatype jsval =
    JUndefined
  | JNull
  | JBool bool
  | JNum int
  | JStr string
  | JArr "jsval list"
  | JObj "(string \<times> jsval) list"
  | JErr string string "(string \<times> jsval) list"

text \<open>Truthiness, as \<^verbatim>\<open>if (v)\<close>, \<^verbatim>\<open>!v\<close> and \<^verbatim>\<open>a || b\<close> test it.\<close>

fun truthy :: "jsval \<Rightarrow> bool" where
  "truthy JUndefined = False"
| "truthy JNull = False"
| "truthy (JBool b) = b"
| "truthy (JNum n) = (n \<noteq> 0)"
| "truthy (JStr s) = (s \<noteq> [])"
| "truthy (JArr xs) = True"
| "truthy (JObj kvs) = True"
| "truthy (JErr n m kvs) = True"

text \<open>
  Property read \<^verbatim>\<open>v.k\<close>. \<^verbatim>\<open>formatError\<close> reads a property either through \<^verbatim>\<open>?.\<close> or from a
  value it has just found truthy, so the read never throws there; a missing property, and any
  of these properties on a primitive or an array, is \<^verbatim>\<open>undefined\<close>.
\<close>

fun getProp :: "jsval \<Rightarrow> string \<Rightarrow> jsval" where
  "getProp (JObj kvs) k = (case map_of kvs k of None \<Rightarrow> JUndefined | Some v \<Rightarrow> v)"
| "getProp (JErr n m kvs) k =
     (if k = ''name'' then JStr n
      else if k = ''message'' then JStr m
      else (case map_of kvs k of None \<Rightarrow> JUndefined | Some v \<Rightarrow> v))"
| "getProp v k = JUndefined"

section \<open>Data model of the sync (index.ts, strapiClient.ts)\<close>

text \<open>
  \<^verbatim>\<open>interface CsvRow { [key: string]: string }\<close>: the object csv-parse builds for one record,
  as the list of its entries in the order \<^verbatim>\<open>Object.keys\<close> enumerates them.
\<close>

type_synonym CsvRow = "(string \<times> string) list"

text \<open>
  \<^verbatim>\<open>row[k]\<close> where the code goes on only if the value is truthy: the value when the key is
  there with a non-empty string, \<open>None\<close> when \<^verbatim>\<open>!row[k]\<close> holds (key missing, or empty string).
\<close>

definition truthy_cell :: "CsvRow \<Rightarrow> string \<Rightarrow> string option" where
  "truthy_cell row k =
     (case map_of row k of
        None \<Rightarrow> None
      | Some v \<Rightarrow> if v = [] then None else Some v)"

record ProFeature =
  id' :: int
  documentId :: string
  feature_id :: string
  name :: string
  createdAt :: string
  updatedAt :: string
  publishedAt :: "string option"
  locale' :: string

datatype action = CreateBase | UpdateBase | UpsertLocale

record ReportEntry =
  featureId :: string
  locale' :: string
  action :: action

record ReportEntrySuccess = ReportEntry +
  documentId :: string
  name :: string

text \<open>
  The \<^verbatim>\<open>error\<close> of a failure entry is declared \<^verbatim>\<open>string\<close>; what line 193 stores is what
  \<^verbatim>\<open>formatError\<close> returned, which is \<^verbatim>\<open>undefined\<close> (\<open>None\<close>) when \<^verbatim>\<open>JSON.stringify\<close>
  returned that.
\<close>

record ReportEntryFailure = ReportEntry +
  error :: "string option"
  row :: CsvRow

record SyncReport =
  defaultLocale :: string
  otherLocales :: "string list"
  processedRows :: nat
  successes :: "ReportEntrySuccess list"
  failures :: "ReportEntryFailure list"

section \<open>The environment: runtime built-ins, the CSV parser and the HTTP transport\<close>

text \<open>
  One HTTP request of the client, with the identifiers it carries:
  \<^verbatim>\<open>GET /pro-features?filters[feature_id][$eq]=id\<close>,
  \<^verbatim>\<open>POST /pro-features {feature_id, name, locale}\<close>,
  \<^verbatim>\<open>PUT /pro-features/documentId?locale=locale {name}\<close>.
\<close>

datatype request =
    GET string
  | POST string string string
  | PUT string string string

text \<open>
  The world the run acts on: the requests issued so far, in order, and the state of the
  remote server, of any type \<open>'s\<close>.
\<close>

record 's world =
  requests :: "request list"
  server :: 's

text \<open>
  What the program takes from outside its three source files:
  \<^item> \<^verbatim>\<open>JSON.stringify\<close>, which returns a string or \<^verbatim>\<open>undefined\<close> (\<open>None\<close>), or throws;
  \<^item> the conversion to a string that \<^verbatim>\<open>String(v)\<close> and a template literal apply to a value
    that is not a string, which returns a string or throws (a \<^verbatim>\<open>TypeError\<close> on an object
    with no callable \<^verbatim>\<open>toString\<close> or \<^verbatim>\<open>valueOf\<close>);
  \<^item> \<^verbatim>\<open>parse\<close> of csv-parse with \<^verbatim>\<open>columns: true\<close>, which returns the records or throws;
  \<^item> the axios client: each request answers with the parsed \<^verbatim>\<open>res.data.data\<close> or throws
    any value, and moves the server to a new state.
\<close>

record 's env =
  JSON_stringify :: "jsval \<Rightarrow> jsval + string option"
  String_of :: "jsval \<Rightarrow> jsval + string"
  csv_parse :: "string \<Rightarrow> jsval + CsvRow list"
  client_get :: "string \<Rightarrow> 's \<Rightarrow> (jsval + ProFeature list) \<times> 's"
  client_post :: "string \<Rightarrow> string \<Rightarrow> string \<Rightarrow> 's \<Rightarrow> (jsval + ProFeature) \<times> 's"
  client_put :: "string \<Rightarrow> string \<Rightarrow> string \<Rightarrow> 's \<Rightarrow> (jsval + ProFeature) \<times> 's"

section \<open>strapiClient.ts\<close>

text \<open>\<^verbatim>\<open>return res.data.data[0] ?? null\<close>: the first match, or "not found".\<close>

definition findDocumentByFeatureId ::
  "'s env \<Rightarrow> string \<Rightarrow> 's world \<Rightarrow> (jsval + ProFeature option) \<times> 's world" where
  "findDocumentByFeatureId E baseFeatureId w =
     (case client_get E baseFeatureId (server w) of
        (res, s') \<Rightarrow>
          (case res of
             Inl err \<Rightarrow> Inl err
           | Inr lst \<Rightarrow> Inr (case lst of [] \<Rightarrow> None | x # _ \<Rightarrow> Some x),
           \<lparr>requests = requests w @ [GET baseFeatureId], server = s'\<rparr>))"

definition createBaseDocument ::
  "'s env \<Rightarrow> string \<Rightarrow> string \<Rightarrow> string \<Rightarrow> 's world \<Rightarrow> (jsval + ProFeature) \<times> 's world" where
  "createBaseDocument E feature_id_arg name_arg locale_arg w =
     (case client_post E feature_id_arg name_arg locale_arg (server w) of
        (res, s') \<Rightarrow>
          (res, \<lparr>requests = requests w @ [POST feature_id_arg name_arg locale_arg], server = s'\<rparr>))"

definition upsertLocaleVersion ::
  "'s env \<Rightarrow> string \<Rightarrow> string \<Rightarrow> string \<Rightarrow> 's world \<Rightarrow> (jsval + ProFeature) \<times> 's world" where
  "upsertLocaleVersion E documentId_arg locale_arg name_arg w =
     (case client_put E documentId_arg locale_arg name_arg (server w) of
        (res, s') \<Rightarrow>
          (res, \<lparr>requests = requests w @ [PUT documentId_arg locale_arg name_arg], server = s'\<rparr>))"

section \<open>index.ts: formatError\<close>

text \<open>
  In \<^verbatim>\<open>formatError\<close> below, \<^verbatim>\<open>err instanceof Error\<close> is the case \<open>JErr\<close>, whose
  \<^verbatim>\<open>err.message\<close> is the message it carries.
\<close>

text \<open>
  The conversion a template literal applies to \<^verbatim>\<open>${v}\<close>: a string stays as it is, any other
  value goes through the conversion of the runtime, which may throw.
\<close>

definition template :: "'s env \<Rightarrow> jsval \<Rightarrow> jsval + string" where
  "template E v = (case v of JStr s \<Rightarrow> Inr s | _ \<Rightarrow> String_of E v)"

text \<open>
  The two blocks \<^verbatim>\<open>try { return JSON.stringify(v) } catch { return String(v) }\<close> of lines
  55 to 59 and 62 to 66. What \<^verbatim>\<open>String(v)\<close> throws is not caught.
\<close>

definition stringifyOrString :: "'s env \<Rightarrow> jsval \<Rightarrow> jsval + string option" where
  "stringifyOrString E v =
     (case JSON_stringify E v of
        Inl thrown \<Rightarrow>
          (case String_of E v of
             Inl thrown' \<Rightarrow> Inl thrown'
           | Inr s \<Rightarrow> Inr (Some s))
      | Inr result \<Rightarrow> Inr result)"

text \<open>
  \<^verbatim>\<open>formatError\<close>: \<open>Inl\<close> is a value it throws, \<open>Inr None\<close> is \<^verbatim>\<open>undefined\<close> returned.
  The template literal of line 53 stands outside any \<^verbatim>\<open>try\<close>: it converts
  \<^verbatim>\<open>e.name || 'Error'\<close>, then evaluates and converts \<^verbatim>\<open>e.message || JSON.stringify(e)\<close>
  (\<^verbatim>\<open>undefined\<close> converts to the text \<^verbatim>\<open>undefined\<close>), and anything thrown on the way
  leaves the function.
\<close>

definition formatError :: "'s env \<Rightarrow> jsval \<Rightarrow> jsval + string option" where
  "formatError E err =
     (if truthy (getProp err ''response'') then
        (let data = getProp (getProp err ''response'') ''data'' in
         if truthy (getProp data ''error'') then
           (let e = getProp data ''error'' in
            case template E (if truthy (getProp e ''name'') then getProp e ''name''
                             else JStr ''Error'') of
              Inl thrown \<Rightarrow> Inl thrown
            | Inr name_text \<Rightarrow>
                (case (if truthy (getProp e ''message'') then template E (getProp e ''message'')
                       else (case JSON_stringify E e of
                               Inl thrown \<Rightarrow> Inl thrown
                             | Inr None \<Rightarrow> Inr ''undefined''
                             | Inr (Some s) \<Rightarrow> Inr s)) of
                   Inl thrown \<Rightarrow> Inl thrown
                 | Inr message_text \<Rightarrow> Inr (Some (name_text @ '': '' @ message_text))))
         else stringifyOrString E data)
      else (case err of
              JErr n m kvs \<Rightarrow> Inr (Some m)
            | _ \<Rightarrow> stringifyOrString E err))"

section \<open>index.ts: processCsv\<close>

text \<open>
  The calls of the logger only write lines to the console and the log file, and the name of
  the report file only depends on the clock: both are left out. What the run does to the
  outside is kept: the requests it issues, the report it writes and how the process ends.

  \<^verbatim>\<open>formatError\<close> is called inside the two \<^verbatim>\<open>catch\<close> blocks (lines 185 and 222), so a
  value it throws is caught by nothing in \<^verbatim>\<open>processCsv\<close>. A step of either loop therefore
  yields the value thrown out of it, if any, together with the state reached: the report in
  memory and the world.
\<close>

text \<open>The report as line 105 builds it.\<close>

definition initReport :: "string \<Rightarrow> string list \<Rightarrow> SyncReport" where
  "initReport dl ols =
     \<lparr>defaultLocale = dl, otherLocales = ols, processedRows = 0, successes = [], failures = []\<rparr>"

text \<open>
  The \<^verbatim>\<open>try\<close> block of lines 148 to 183: find the document, then create it or update its
  default locale. \<open>Inl\<close> is the value the \<^verbatim>\<open>catch\<close> of line 184 receives; \<open>Inr\<close> is the
  success entry the block pushes, whose \<open>documentId\<close> the locale loop goes on with.
\<close>

definition baseStep ::
  "'s env \<Rightarrow> string \<Rightarrow> string \<Rightarrow> string \<Rightarrow> 's world \<Rightarrow> (jsval + ReportEntrySuccess) \<times> 's world" where
  "baseStep E dl baseFeatureId baseName w =
     (case findDocumentByFeatureId E baseFeatureId w of
        (Inl err, w1) \<Rightarrow> (Inl err, w1)
      | (Inr None, w1) \<Rightarrow>
          (case createBaseDocument E baseFeatureId baseName dl w1 of
             (Inl err, w2) \<Rightarrow> (Inl err, w2)
           | (Inr baseDoc, w2) \<Rightarrow>
               (Inr \<lparr>featureId = baseFeatureId, locale' = dl, action = CreateBase,
                     documentId = ProFeature.documentId baseDoc,
                     name = ProFeature.name baseDoc\<rparr>, w2))
      | (Inr (Some existing), w1) \<Rightarrow>
          (case upsertLocaleVersion E (ProFeature.documentId existing) dl baseName w1 of
             (Inl err, w2) \<Rightarrow> (Inl err, w2)
           | (Inr updatedBase, w2) \<Rightarrow>
               (Inr \<lparr>featureId = baseFeatureId, locale' = dl, action = UpdateBase,
                     documentId = ProFeature.documentId existing,
                     name = ProFeature.name updatedBase\<rparr>, w2)))"

text \<open>The loop of lines 201 to 234 over the other locales, in column order.\<close>

fun localeLoop ::
  "'s env \<Rightarrow> string \<Rightarrow> string \<Rightarrow> CsvRow \<Rightarrow> string list \<Rightarrow> SyncReport \<times> 's world
     \<Rightarrow> jsval option \<times> SyncReport \<times> 's world" where
  "localeLoop E docId baseFeatureId r [] st = (None, st)"
| "localeLoop E docId baseFeatureId r (l # ls) st =
     (case truthy_cell r l of
        None \<Rightarrow> localeLoop E docId baseFeatureId r ls st
      | Some localizedName \<Rightarrow>
          (case upsertLocaleVersion E docId l localizedName (snd st) of
             (Inr localized, w1) \<Rightarrow>
               localeLoop E docId baseFeatureId r ls
                 ((fst st)\<lparr>successes := successes (fst st) @
                    [\<lparr>featureId = baseFeatureId, locale' = l, action = UpsertLocale,
                      documentId = docId, name = ProFeature.name localized\<rparr>]\<rparr>, w1)
           | (Inl err, w1) \<Rightarrow>
               (case formatError E err of
                  Inl thrown \<Rightarrow> (Some thrown, fst st, w1)
                | Inr msg \<Rightarrow>
                    localeLoop E docId baseFeatureId r ls
                      ((fst st)\<lparr>failures := failures (fst st) @
                         [\<lparr>featureId = baseFeatureId, locale' = l, action = UpsertLocale,
                           error = msg, row = r\<rparr>]\<rparr>, w1))))"

text \<open>The body of the loop over the records, lines 114 to 236.\<close>

definition processRow ::
  "'s env \<Rightarrow> string \<Rightarrow> string list \<Rightarrow> CsvRow \<Rightarrow> SyncReport \<times> 's world
     \<Rightarrow> jsval option \<times> SyncReport \<times> 's world" where
  "processRow E dl ols r st =
     (case truthy_cell r ''feature_id'' of
        None \<Rightarrow>
          (None,
           (fst st)\<lparr>failures := failures (fst st) @
             [\<lparr>featureId = [], locale' = dl, action = CreateBase,
               error = Some ''Missing feature_id'', row = r\<rparr>]\<rparr>, snd st)
      | Some baseFeatureId \<Rightarrow>
          (case truthy_cell r dl of
             None \<Rightarrow>
               (None,
                (fst st)\<lparr>failures := failures (fst st) @
                  [\<lparr>featureId = baseFeatureId, locale' = dl, action = CreateBase,
                    error = Some (''Missing name for default locale \"'' @ dl @ ''\"''),
                    row = r\<rparr>]\<rparr>,
                snd st)
           | Some baseName \<Rightarrow>
               (case baseStep E dl baseFeatureId baseName (snd st) of
                  (Inl err, w1) \<Rightarrow>
                    (case formatError E err of
                       Inl thrown \<Rightarrow> (Some thrown, fst st, w1)
                     | Inr msg \<Rightarrow>
                         (None,
                          (fst st)\<lparr>failures := failures (fst st) @
                            [\<lparr>featureId = baseFeatureId, locale' = dl, action = CreateBase,
                              error = msg, row = r\<rparr>]\<rparr>, w1))
                | (Inr entry, w1) \<Rightarrow>
                    (case localeLoop E (documentId entry) baseFeatureId r ols
                            ((fst st)\<lparr>successes := successes (fst st) @ [entry]\<rparr>, w1) of
                       (Some thrown, st2) \<Rightarrow> (Some thrown, st2)
                     | (None, report, w2) \<Rightarrow>
                         (None, report\<lparr>processedRows := processedRows report + 1\<rparr>, w2)))))"

text \<open>The loop of line 113: a value thrown out of a row ends it.\<close>

fun processRows ::
  "'s env \<Rightarrow> string \<Rightarrow> string list \<Rightarrow> CsvRow list \<Rightarrow> SyncReport \<times> 's world
     \<Rightarrow> jsval option \<times> SyncReport \<times> 's world" where
  "processRows E dl ols [] st = (None, st)"
| "processRows E dl ols (r # rs) st =
     (case processRow E dl ols r st of
        (Some thrown, st') \<Rightarrow> (Some thrown, st')
      | (None, st') \<Rightarrow> processRows E dl ols rs st')"

text \<open>
  How a call ends: it returns, the process exits with a code (\<^verbatim>\<open>process.exit\<close>), or a value
  is thrown to the caller.
\<close>

datatype completion = Returned | Exited nat | Threw jsval

record 's outcome =
  status :: completion
  reportFile :: "SyncReport option"
  world :: "'s world"

text \<open>
  \<^verbatim>\<open>processCsv\<close>. The file system is the map \<open>files\<close> from a path to the content of the file
  there; \<open>reportFile\<close> is the report that line 247 writes, if it is reached. A value thrown
  out of the loop leaves \<^verbatim>\<open>processCsv\<close> before that line.
\<close>

definition processCsv ::
  "'s env \<Rightarrow> (string \<Rightarrow> string option) \<Rightarrow> string \<Rightarrow> 's world \<Rightarrow> 's outcome" where
  "processCsv E files filePath w =
     (case files filePath of
        None \<Rightarrow> \<lparr>status = Exited 1, reportFile = None, world = w\<rparr>
      | Some csvContent \<Rightarrow>
          (case csv_parse E csvContent of
             Inl err \<Rightarrow> \<lparr>status = Threw err, reportFile = None, world = w\<rparr>
           | Inr records \<Rightarrow>
               if length records = 0 then \<lparr>status = Returned, reportFile = None, world = w\<rparr>
               else
                 (let headers = map fst (hd records) in
                  if length headers < 2 \<or> headers ! 0 \<noteq> ''feature_id''
                  then \<lparr>status = Exited 1, reportFile = None, world = w\<rparr>
                  else
                    (let dl = headers ! 1;
                         ols = drop 2 headers
                     in case processRows E dl ols records (initReport dl ols, w) of
                          (Some thrown, report, w') \<Rightarrow>
                            \<lparr>status = Threw thrown, reportFile = None, world = w'\<rparr>
                        | (None, report, w') \<Rightarrow>
                            \<lparr>status = Returned, reportFile = Some report, world = w'\<rparr>))))"

text \<open>
  \<^verbatim>\<open>main\<close> with its \<^verbatim>\<open>catch\<close>: \<open>argv2\<close> is \<^verbatim>\<open>process.argv[2]\<close>. A run that returns ends the
  process with exit code 0; a value thrown out of \<^verbatim>\<open>processCsv\<close> ends it with exit code 1
  (line 274).
\<close>

definition main ::
  "'s env \<Rightarrow> (string \<Rightarrow> string option) \<Rightarrow> string option \<Rightarrow> 's world \<Rightarrow> 's outcome" where
  "main E files argv2 w =
     (case argv2 of
        None \<Rightarrow> \<lparr>status = Exited 1, reportFile = None, world = w\<rparr>
      | Some csvPath \<Rightarrow>
          if csvPath = [] then \<lparr>status = Exited 1, reportFile = None, world = w\<rparr>
          else
            (let out = processCsv E files csvPath w in
             case status out of
               Returned \<Rightarrow> out\<lparr>status := Exited 0\<rparr>
             | Exited n \<Rightarrow> out
             | Threw err \<Rightarrow> out\<lparr>status := Exited 1\<rparr>))"

section \<open>Notions the properties are stated with\<close>

text \<open>
  What one step appended to the two lists of the report and to the requests: the part of
  the later list beyond the length of the earlier one.
\<close>

definition newSuccesses ::
  "SyncReport \<times> 's world \<Rightarrow> SyncReport \<times> 's world \<Rightarrow> ReportEntrySuccess list" where
  "newSuccesses st st' = drop (length (successes (fst st))) (successes (fst st'))"

definition newFailures ::
  "SyncReport \<times> 's world \<Rightarrow> SyncReport \<times> 's world \<Rightarrow> ReportEntryFailure list" where
  "newFailures st st' = drop (length (failures (fst st))) (failures (fst st'))"

definition newRequests :: "SyncReport \<times> 's world \<Rightarrow> SyncReport \<times> 's world \<Rightarrow> request list" where
  "newRequests st st' = drop (length (requests (snd st))) (requests (snd st'))"

text \<open>The locale a request is about, if it names one.\<close>

fun request_locale :: "request \<Rightarrow> string option" where
  "request_locale (GET f) = None"
| "request_locale (POST f n l) = Some l"
| "request_locale (PUT d l n) = Some l"

text \<open>
  The column of the CSV an entry belongs to: the default-locale column for a base entry
  (\<open>False\<close>), the column of its locale for an \<^verbatim>\<open>upsert-locale\<close> entry (\<open>True\<close>).
\<close>

definition entry_column :: "'a ReportEntry_scheme \<Rightarrow> bool \<times> string" where
  "entry_column e = (action e = UpsertLocale, locale' e)"

text \<open>The locale columns of a row whose cell is not empty, in column order.\<close>

definition filled :: "CsvRow \<Rightarrow> string list \<Rightarrow> string list" where
  "filled r ls = filter (\<lambda>l. truthy_cell r l \<noteq> None) ls"

text \<open>The columns of a row in CSV order: the default locale, then the other locales.\<close>

definition rowColumns :: "string \<Rightarrow> string list \<Rightarrow> (bool \<times> string) list" where
  "rowColumns dl ols = (False, dl) # map (Pair True) ols"

text \<open>The two presence checks of lines 115 and 128.\<close>

definition passesChecks :: "string \<Rightarrow> CsvRow \<Rightarrow> bool" where
  "passesChecks dl r = (truthy_cell r ''feature_id'' \<noteq> None \<and> truthy_cell r dl \<noteq> None)"

text \<open>A row passes both checks and its base step, run in the world \<open>w\<close>, does not throw.\<close>

definition baseSucceeds :: "'s env \<Rightarrow> string \<Rightarrow> CsvRow \<Rightarrow> 's world \<Rightarrow> bool" where
  "baseSucceeds E dl r w =
     (case truthy_cell r ''feature_id'' of
        None \<Rightarrow> False
      | Some baseFeatureId \<Rightarrow>
          (case truthy_cell r dl of
             None \<Rightarrow> False
           | Some baseName \<Rightarrow>
               (case fst (baseStep E dl baseFeatureId baseName w) of
                  Inl err \<Rightarrow> False
                | Inr entry \<Rightarrow> True)))"

text \<open>
  The state in which the loop of line 113 starts each row, in row order, for the rows it
  reaches.
\<close>

fun statesBefore ::
  "'s env \<Rightarrow> string \<Rightarrow> string list \<Rightarrow> CsvRow list \<Rightarrow> SyncReport \<times> 's world
     \<Rightarrow> (SyncReport \<times> 's world) list" where
  "statesBefore E dl ols [] st = []"
| "statesBefore E dl ols (r # rs) st =
     st # (case processRow E dl ols r st of
             (Some thrown, st') \<Rightarrow> []
           | (None, st') \<Rightarrow> statesBefore E dl ols rs st')"

text \<open>
  The remote the idempotence property speaks of. A record is discoverable by its
  \<^verbatim>\<open>feature_id\<close> in a server state when the GET for it answers with a non-empty list. The
  remote keeps its records when a successful create makes the record discoverable and no
  request, answered or rejected, makes a discoverable record disappear.
\<close>

definition discoverable :: "'s env \<Rightarrow> 's \<Rightarrow> string \<Rightarrow> bool" where
  "discoverable E s f = (case fst (client_get E f s) of Inl err \<Rightarrow> False | Inr lst \<Rightarrow> lst \<noteq> [])"

definition keepsRecords :: "'s env \<Rightarrow> bool" where
  "keepsRecords E \<longleftrightarrow>
     (\<forall>f n l s d s'. client_post E f n l s = (Inr d, s') \<longrightarrow> discoverable E s' f)
   \<and> (\<forall>f g s. discoverable E s f \<longrightarrow> discoverable E (snd (client_get E g s)) f)
   \<and> (\<forall>f g n l s. discoverable E s f \<longrightarrow> discoverable E (snd (client_post E g n l s)) f)
   \<and> (\<forall>f d l n s. discoverable E s f \<longrightarrow> discoverable E (snd (client_put E d l n s)) f)"

section \<open>A concrete runtime and remote for the examples\<close>

text \<open>
  The conversion to a string of the runtime, on the values of \<^typ>\<open>jsval\<close>. No value of
  \<^typ>\<open>jsval\<close> is callable, so an object with an own property \<^verbatim>\<open>toString\<close> has no callable
  \<^verbatim>\<open>toString\<close>, and its \<^verbatim>\<open>valueOf\<close>, own or inherited, yields no primitive: the conversion
  throws a \<^verbatim>\<open>TypeError\<close>. An array joins the conversions of its elements with commas,
  \<^verbatim>\<open>null\<close> and \<^verbatim>\<open>undefined\<close> giving the empty string. Integers are printed in decimal (as
  the runtime does below \<open>10\<^sup>2\<^sup>1\<close>).
\<close>

definition typeError :: jsval where
  "typeError = JErr ''TypeError'' ''Cannot convert object to primitive value'' []"

function showNat :: "nat \<Rightarrow> string" where
  "showNat n =
     (if n < 10 then [''0123456789'' ! n]
      else showNat (n div 10) @ [''0123456789'' ! (n mod 10)])"
  by pat_completeness auto
termination
  by (relation "measure id") auto

fun joinJS :: "(jsval + string) list \<Rightarrow> jsval + string" where
  "joinJS [] = Inr []"
| "joinJS [x] = x"
| "joinJS (x # y # ys) =
     (case x of
        Inl thrown \<Rightarrow> Inl thrown
      | Inr a \<Rightarrow>
          (case joinJS (y # ys) of
             Inl thrown \<Rightarrow> Inl thrown
           | Inr b \<Rightarrow> Inr (a @ '','' @ b)))"

fun toStringJS :: "jsval \<Rightarrow> jsval + string" where
  "toStringJS JUndefined = Inr ''undefined''"
| "toStringJS JNull = Inr ''null''"
| "toStringJS (JBool b) = Inr (if b then ''true'' else ''false'')"
| "toStringJS (JNum n) = Inr ((if n < 0 then ''-'' else []) @ showNat (nat \<bar>n\<bar>))"
| "toStringJS (JStr s) = Inr s"
| "toStringJS (JArr xs) =
     joinJS (map (\<lambda>x. if x = JUndefined \<or> x = JNull then Inr [] else toStringJS x) xs)"
| "toStringJS (JObj kvs) =
     (if map_of kvs ''toString'' = None then Inr ''[object Object]'' else Inl typeError)"
| "toStringJS (JErr n m kvs) =
     (if map_of kvs ''toString'' = None
      then Inr (if n = [] then m else if m = [] then n else n @ '': '' @ m)
      else Inl typeError)"

text \<open>
  \<^verbatim>\<open>JSON.stringify\<close> in the examples: \<^verbatim>\<open>undefined\<close> for \<^verbatim>\<open>undefined\<close>, as the runtime
  gives; the text of any other value is not spelled out, and no example depends on it.
\<close>

definition stringifyJS :: "jsval \<Rightarrow> jsval + string option" where
  "stringifyJS v = (if v = JUndefined then Inr None else Inr (Some ''[json]''))"

text \<open>
  The error axios throws when the server answers 400 with a structured error body; and the
  same with a body whose \<^verbatim>\<open>error.name\<close> is the object \<^verbatim>\<open>{"toString": 1, "valueOf": 1}\<close>.
\<close>

definition rejection :: jsval where
  "rejection =
     JErr ''AxiosError'' ''Request failed with status code 400''
       [(''response'',
         JObj [(''data'',
           JObj [(''error'',
             JObj [(''name'', JStr ''ValidationError''),
                   (''message'', JStr ''Invalid payload'')])])])]"

definition oddRejection :: jsval where
  "oddRejection =
     JErr ''AxiosError'' ''Request failed with status code 400''
       [(''response'',
         JObj [(''data'',
           JObj [(''error'',
             JObj [(''name'', JObj [(''toString'', JNum 1), (''valueOf'', JNum 1)]),
                   (''message'', JStr ''x'')])])])]"

text \<open>
  The server state is the list of stored documents. A request that \<open>rejects\<close> holds of
  throws \<open>thrown\<close> and changes nothing; a GET answers with the documents of that
  \<open>feature_id\<close>; a POST stores a new document; a PUT answers with the locale version written.
\<close>

definition storeEnv ::
  "jsval \<Rightarrow> (request \<Rightarrow> bool) \<Rightarrow> (string \<Rightarrow> jsval + CsvRow list) \<Rightarrow> (ProFeature list) env" where
  "storeEnv thrown rejects parse =
     \<lparr>JSON_stringify = stringifyJS,
      String_of = toStringJS,
      csv_parse = parse,
      client_get = (\<lambda>f s.
        if rejects (GET f) then (Inl thrown, s)
        else (Inr (filter (\<lambda>d. feature_id d = f) s), s)),
      client_post = (\<lambda>f n l s.
        if rejects (POST f n l) then (Inl thrown, s)
        else (let d = \<lparr>id' = int (length s) + 1, ProFeature.documentId = ''doc-'' @ f,
                        feature_id = f, ProFeature.name = n, createdAt = [], updatedAt = [],
                        publishedAt = None, ProFeature.locale' = l\<rparr>
              in (Inr d, s @ [d]))),
      client_put = (\<lambda>d l n s.
        if rejects (PUT d l n) then (Inl thrown, s)
        else (Inr \<lparr>id' = int (length s) + 1, ProFeature.documentId = d,
                    feature_id = [], ProFeature.name = n, createdAt = [], updatedAt = [],
                    publishedAt = None, ProFeature.locale' = l\<rparr>, s))\<rparr>"

text \<open>
  Servers that accept everything, reject everything, reject an update of locale \<open>en\<close>, or
  reject an update of any other locale.
\<close>

definition acceptAll :: "request \<Rightarrow> bool" where
  "acceptAll q = False"

definition rejectAll :: "request \<Rightarrow> bool" where
  "rejectAll q = True"

definition rejectDefaultPut :: "request \<Rightarrow> bool" where
  "rejectDefaultPut q = (case q of PUT d l n \<Rightarrow> l = ''en'' | _ \<Rightarrow> False)"

definition rejectLocalePut :: "request \<Rightarrow> bool" where
  "rejectLocalePut q = (case q of PUT d l n \<Rightarrow> l \<noteq> ''en'' | _ \<Rightarrow> False)"

text \<open>
  The CSV of the scenario of the specification and the records csv-parse builds from it:
  \<^verbatim>\<open>feature_id,en,vi / F1,Hello,Xin chao / F2,World,\<close>; and a row without identifier.
\<close>

definition row1 :: CsvRow where
  "row1 = [(''feature_id'', ''F1''), (''en'', ''Hello''), (''vi'', ''Xin chao'')]"

definition row2 :: CsvRow where
  "row2 = [(''feature_id'', ''F2''), (''en'', ''World''), (''vi'', [])]"

definition rowNoId :: CsvRow where
  "rowNoId = [(''feature_id'', []), (''en'', ''Hello''), (''vi'', ''Xin chao'')]"

definition demoRows :: "CsvRow list" where
  "demoRows = [row1, row2]"

definition demoCsv :: string where
  "demoCsv = ''feature_id,en,vi'' @ [CHR 0x0A] @ ''F1,Hello,Xin chao'' @ [CHR 0x0A] @ ''F2,World,''"

definition demoFiles :: "string \<Rightarrow> string option" where
  "demoFiles p =
     (if p = ''features.csv'' then Some demoCsv
      else if p = ''empty.csv'' then Some ''id,en''
      else None)"

text \<open>
  The parser on these two files: the records above for the first, no record for the second
  (a header line only, whose first column is not \<^verbatim>\<open>feature_id\<close>).
\<close>

definition demoParse :: "string \<Rightarrow> jsval + CsvRow list" where
  "demoParse c = (if c = demoCsv then Inr demoRows else Inr [])"

text \<open>The remote that throws \<open>rejection\<close>, and the one that throws \<open>oddRejection\<close>.\<close>

definition demoEnv :: "(request \<Rightarrow> bool) \<Rightarrow> (ProFeature list) env" where
  "demoEnv rejects = storeEnv rejection rejects demoParse"

definition oddEnv :: "(request \<Rightarrow> bool) \<Rightarrow> (ProFeature list) env" where
  "oddEnv rejects = storeEnv oddRejection rejects demoParse"

text \<open>The world before any request: with an empty collection, and with F1 already stored.\<close>

definition emptyWorld :: "(ProFeature list) world" where
  "emptyWorld = \<lparr>requests = [], server = []\<rparr>"

definition docF1 :: ProFeature where
  "docF1 = \<lparr>id' = 1, ProFeature.documentId = ''doc-F1'', feature_id = ''F1'',
             ProFeature.name = ''Hello'', createdAt = [], updatedAt = [],
             publishedAt = None, ProFeature.locale' = ''en''\<rparr>"

definition seededWorld :: "(ProFeature list) world" where
  "seededWorld = \<lparr>requests = [], server = [docF1]\<rparr>"

text \<open>Two runs of the same CSV, the second in the world the first one left.\<close>

definition firstRun :: "(request \<Rightarrow> bool) \<Rightarrow> (ProFeature list) outcome" where
  "firstRun rejects = processCsv (demoEnv rejects) demoFiles ''features.csv'' emptyWorld"

definition secondRun :: "(request \<Rightarrow> bool) \<Rightarrow> (ProFeature list) outcome" where
  "secondRun rejects =
     processCsv (demoEnv rejects) demoFiles ''features.csv'' (world (firstRun rejects))"

section \<open>Auxiliary facts: what each call and each loop appends\<close>

lemma entry_column_success:
  "entry_column \<lparr>featureId = f, locale' = l, action = a, documentId = d, name = n\<rparr>
     = (a = UpsertLocale, l)"
  by (simp add: entry_column_def)

lemma entry_column_failure:
  "entry_column \<lparr>featureId = f, locale' = l, action = a, error = m, row = r\<rparr>
     = (a = UpsertLocale, l)"
  by (simp add: entry_column_def)

lemma upsertLocaleVersion_requests:
  "upsertLocaleVersion E d l n w = (res, w1) \<Longrightarrow> requests w1 = requests w @ [PUT d l n]"
  by (auto simp: upsertLocaleVersion_def split: prod.splits)

lemma createBaseDocument_requests:
  "createBaseDocument E f n l w = (res, w1) \<Longrightarrow> requests w1 = requests w @ [POST f n l]"
  by (auto simp: createBaseDocument_def split: prod.splits)

lemma findDocumentByFeatureId_requests:
  "findDocumentByFeatureId E f w = (res, w1) \<Longrightarrow> requests w1 = requests w @ [GET f]"
  by (auto simp: findDocumentByFeatureId_def split: prod.splits)

text \<open>
  The locale loop only appends, whether it ends or a value is thrown out of it: entries of
  the filled locale columns, in column order, and one PUT for each column it reached.
\<close>

lemma localeLoop_delta:
  "\<exists>ss fs rq sv.
     snd (localeLoop E d f r ls (rep, w)) =
       (rep\<lparr>successes := successes rep @ ss, failures := failures rep @ fs\<rparr>,
        \<lparr>requests = requests w @ rq, server = sv\<rparr>)
     \<and> subseq (map entry_column ss) (map (Pair True) (filled r ls))
     \<and> subseq (map entry_column fs) (map (Pair True) (filled r ls))
     \<and> (\<forall>q\<in>set rq. \<exists>l n. q = PUT d l n \<and> l \<in> set (filled r ls))"
proof (induction ls arbitrary: rep w)
  case Nil
  show ?case
    by (rule exI[of _ "[]"], rule exI[of _ "[]"], rule exI[of _ "[]"], rule exI[of _ "server w"])
       (simp add: filled_def)
next
  case (Cons l ls)
  show ?case
  proof (cases "truthy_cell r l")
    case None
    with Cons.IH[of rep w] show ?thesis by (simp add: filled_def)
  next
    case (Some nm)
    obtain res w1 where up: "upsertLocaleVersion E d l nm w = (res, w1)"
      by (cases "upsertLocaleVersion E d l nm w")
    note rq1 = upsertLocaleVersion_requests[OF up]
    have put: "\<forall>q\<in>set [PUT d l nm]. \<exists>l' n. q = PUT d l' n \<and> l' \<in> set (filled r (l # ls))"
      using Some by (simp add: filled_def)
    show ?thesis
    proof (cases res)
      case (Inl err)
      show ?thesis
      proof (cases "formatError E err")
        case thrown: (Inl x)
        have "snd (localeLoop E d f r (l # ls) (rep, w)) =
             (rep\<lparr>successes := successes rep @ [], failures := failures rep @ []\<rparr>,
              \<lparr>requests = requests w @ [PUT d l nm], server = server w1\<rparr>)"
          using Some up Inl thrown rq1 by simp
        with put show ?thesis
          by (intro exI[of _ "[]"] exI[of _ "[PUT d l nm]"] exI[of _ "server w1"] conjI)
             simp_all
      next
        case (Inr msg)
        define e where "e = \<lparr>featureId = f, locale' = l, action = UpsertLocale,
                        error = msg, row = r\<rparr>"
        have ec: "entry_column e = (True, l)"
          by (simp add: e_def entry_column_failure)
        from Cons.IH[of "rep\<lparr>failures := failures rep @ [e]\<rparr>" w1] obtain ss fs rq sv where
          eq: "snd (localeLoop E d f r ls (rep\<lparr>failures := failures rep @ [e]\<rparr>, w1)) =
             (rep\<lparr>successes := successes rep @ ss, failures := failures rep @ e # fs\<rparr>,
              \<lparr>requests = requests w1 @ rq, server = sv\<rparr>)"
          and s1: "subseq (map entry_column ss) (map (Pair True) (filled r ls))"
          and s2: "subseq (map entry_column fs) (map (Pair True) (filled r ls))"
          and s3: "\<forall>q\<in>set rq. \<exists>l n. q = PUT d l n \<and> l \<in> set (filled r ls)"
          by auto
        have "snd (localeLoop E d f r (l # ls) (rep, w)) =
             (rep\<lparr>successes := successes rep @ ss, failures := failures rep @ e # fs\<rparr>,
              \<lparr>requests = requests w @ PUT d l nm # rq, server = sv\<rparr>)"
          using Some up Inl Inr eq rq1 by (simp add: e_def)
        moreover have "subseq (map entry_column ss) (map (Pair True) (filled r (l # ls)))"
          using s1 Some by (auto simp: filled_def intro: list_emb_Cons)
        moreover have "subseq (map entry_column (e # fs)) (map (Pair True) (filled r (l # ls)))"
          using s2 Some ec by (simp add: filled_def)
        moreover have "\<forall>q\<in>set (PUT d l nm # rq).
            \<exists>l' n. q = PUT d l' n \<and> l' \<in> set (filled r (l # ls))"
          using s3 Some by (auto simp: filled_def)
        ultimately show ?thesis by blast
      qed
    next
      case (Inr doc)
      define e where "e = \<lparr>featureId = f, locale' = l, action = UpsertLocale,
                      documentId = d, name = ProFeature.name doc\<rparr>"
      have ec: "entry_column e = (True, l)"
        by (simp add: e_def entry_column_success)
      from Cons.IH[of "rep\<lparr>successes := successes rep @ [e]\<rparr>" w1] obtain ss fs rq sv where
        eq: "snd (localeLoop E d f r ls (rep\<lparr>successes := successes rep @ [e]\<rparr>, w1)) =
           (rep\<lparr>successes := successes rep @ e # ss, failures := failures rep @ fs\<rparr>,
            \<lparr>requests = requests w1 @ rq, server = sv\<rparr>)"
        and s1: "subseq (map entry_column ss) (map (Pair True) (filled r ls))"
        and s2: "subseq (map entry_column fs) (map (Pair True) (filled r ls))"
        and s3: "\<forall>q\<in>set rq. \<exists>l n. q = PUT d l n \<and> l \<in> set (filled r ls)"
        by auto
      have "snd (localeLoop E d f r (l # ls) (rep, w)) =
           (rep\<lparr>successes := successes rep @ e # ss, failures := failures rep @ fs\<rparr>,
            \<lparr>requests = requests w @ PUT d l nm # rq, server = sv\<rparr>)"
        using Some up Inr eq rq1 by (simp add: e_def)
      moreover have "subseq (map entry_column (e # ss)) (map (Pair True) (filled r (l # ls)))"
        using s1 Some ec by (simp add: filled_def)
      moreover have "subseq (map entry_column fs) (map (Pair True) (filled r (l # ls)))"
        using s2 Some by (auto simp: filled_def intro: list_emb_Cons)
      moreover have "\<forall>q\<in>set (PUT d l nm # rq).
          \<exists>l' n. q = PUT d l' n \<and> l' \<in> set (filled r (l # ls))"
        using s3 Some by (auto simp: filled_def)
      ultimately show ?thesis by blast
    qed
  qed
qed

text \<open>The ways the body of the row loop ends.\<close>

lemma processRow_missing_id:
  assumes "truthy_cell r ''feature_id'' = None"
  shows "processRow E dl ols r (rep, w) =
     (None, rep\<lparr>failures := failures rep @
        [\<lparr>featureId = [], locale' = dl, action = CreateBase,
          error = Some ''Missing feature_id'', row = r\<rparr>]\<rparr>, w)"
  using assms by (simp add: processRow_def)

lemma processRow_missing_name:
  assumes "truthy_cell r ''feature_id'' = Some f" "truthy_cell r dl = None"
  shows "processRow E dl ols r (rep, w) =
     (None, rep\<lparr>failures := failures rep @
        [\<lparr>featureId = f, locale' = dl, action = CreateBase,
          error = Some (''Missing name for default locale \"'' @ dl @ ''\"''), row = r\<rparr>]\<rparr>, w)"
  using assms by (simp add: processRow_def)

lemma processRow_base_failure:
  assumes "truthy_cell r ''feature_id'' = Some f" "truthy_cell r dl = Some n"
    and "baseStep E dl f n w = (Inl err, w1)" and "formatError E err = Inr msg"
  shows "processRow E dl ols r (rep, w) =
     (None, rep\<lparr>failures := failures rep @
        [\<lparr>featureId = f, locale' = dl, action = CreateBase,
          error = msg, row = r\<rparr>]\<rparr>, w1)"
  using assms by (simp add: processRow_def)

lemma processRow_base_unformattable:
  assumes "truthy_cell r ''feature_id'' = Some f" "truthy_cell r dl = Some n"
    and "baseStep E dl f n w = (Inl err, w1)" and "formatError E err = Inl thrown"
  shows "processRow E dl ols r (rep, w) = (Some thrown, rep, w1)"
  using assms by (simp add: processRow_def)

lemma processRow_base_success:
  assumes "truthy_cell r ''feature_id'' = Some f" "truthy_cell r dl = Some n"
    and "baseStep E dl f n w = (Inr entry, w1)"
  shows "\<exists>ss fs rq sv.
     snd (processRow E dl ols r (rep, w)) =
       (rep\<lparr>processedRows := processedRows rep +
               (if fst (processRow E dl ols r (rep, w)) = None then 1 else 0),
            successes := successes rep @ entry # ss, failures := failures rep @ fs\<rparr>,
        \<lparr>requests = requests w1 @ rq, server = sv\<rparr>)
     \<and> subseq (map entry_column ss) (map (Pair True) (filled r ols))
     \<and> subseq (map entry_column fs) (map (Pair True) (filled r ols))
     \<and> (\<forall>q\<in>set rq. \<exists>l n. q = PUT (documentId entry) l n \<and> l \<in> set (filled r ols))"
proof -
  let ?loop = "localeLoop E (documentId entry) f r ols (rep\<lparr>successes := successes rep @ [entry]\<rparr>, w1)"
  from localeLoop_delta[of E "documentId entry" f r ols "rep\<lparr>successes := successes rep @ [entry]\<rparr>" w1]
  obtain ss fs rq sv where
    eq: "snd ?loop =
       (rep\<lparr>successes := successes rep @ entry # ss, failures := failures rep @ fs\<rparr>,
        \<lparr>requests = requests w1 @ rq, server = sv\<rparr>)"
    and s: "subseq (map entry_column ss) (map (Pair True) (filled r ols))"
       "subseq (map entry_column fs) (map (Pair True) (filled r ols))"
       "\<forall>q\<in>set rq. \<exists>l n. q = PUT (documentId entry) l n \<and> l \<in> set (filled r ols)"
    by auto
  obtain t st2 where loop: "?loop = (t, st2)" by (cases ?loop)
  have "snd (processRow E dl ols r (rep, w)) =
       (rep\<lparr>processedRows := processedRows rep +
               (if fst (processRow E dl ols r (rep, w)) = None then 1 else 0),
            successes := successes rep @ entry # ss, failures := failures rep @ fs\<rparr>,
        \<lparr>requests = requests w1 @ rq, server = sv\<rparr>)"
    using assms eq loop by (cases t) (auto simp: processRow_def)
  with s show ?thesis by blast
qed

text \<open>The base step: what it pushes and what it requests.\<close>

lemma baseStep_success:
  assumes "baseStep E dl f n w = (Inr entry, w1)"
  shows "featureId entry = f \<and> locale' entry = dl \<and> action entry \<in> {CreateBase, UpdateBase}
     \<and> (\<exists>rq. requests w1 = requests w @ rq \<and> (\<forall>q\<in>set rq. request_locale q \<in> {None, Some dl}))"
  using assms
  by (auto simp: baseStep_def split: prod.splits sum.splits option.splits
      dest!: findDocumentByFeatureId_requests createBaseDocument_requests upsertLocaleVersion_requests)

lemma baseStep_failure:
  assumes "baseStep E dl f n w = (Inl err, w1)"
  shows "\<exists>rq. requests w1 = requests w @ rq \<and> (\<forall>q\<in>set rq. request_locale q \<in> {None, Some dl})"
  using assms
  by (auto simp: baseStep_def split: prod.splits sum.splits option.splits
      dest!: findDocumentByFeatureId_requests createBaseDocument_requests upsertLocaleVersion_requests)

lemma subseq_set: "subseq xs ys \<Longrightarrow> x \<in> set xs \<Longrightarrow> x \<in> set ys"
  by (erule list_emb_set) auto

lemma rowColumns_filled: "subseq (rowColumns dl (filled r ols)) (rowColumns dl ols)"
  by (simp add: rowColumns_def filled_def subseq_map)

lemma baseSucceeds_iff:
  assumes "truthy_cell r ''feature_id'' = Some f" "truthy_cell r dl = Some n"
    and "baseStep E dl f n w = (res, w1)"
  shows "baseSucceeds E dl r w \<longleftrightarrow> (\<exists>entry. res = Inr entry)"
  using assms by (cases res) (simp_all add: baseSucceeds_def)

text \<open>
  One row only appends: to the two lists, to the requests, and one to the count when its base
  step succeeded and nothing was thrown out of it.
\<close>

lemma processRow_delta:
  "\<exists>ss fs rq sv.
     snd (processRow E dl ols r (rep, w)) =
       (rep\<lparr>processedRows := processedRows rep +
               (if baseSucceeds E dl r w \<and> fst (processRow E dl ols r (rep, w)) = None
                then 1 else 0),
            successes := successes rep @ ss, failures := failures rep @ fs\<rparr>,
        \<lparr>requests = requests w @ rq, server = sv\<rparr>)
     \<and> subseq (map entry_column ss) (rowColumns dl (filled r ols))
     \<and> subseq (map entry_column fs) (rowColumns dl (filled r ols))
     \<and> (\<forall>q\<in>set rq. request_locale q \<in> {None, Some dl} \<union> Some ` set (filled r ols))"
proof (cases "truthy_cell r ''feature_id''")
  case None
  define e where "e = \<lparr>featureId = [], locale' = dl, action = CreateBase,
          error = Some ''Missing feature_id'', row = r\<rparr>"
  have "snd (processRow E dl ols r (rep, w)) =
       (rep\<lparr>processedRows := processedRows rep +
               (if baseSucceeds E dl r w \<and> fst (processRow E dl ols r (rep, w)) = None
                then 1 else 0),
            successes := successes rep @ [], failures := failures rep @ [e]\<rparr>,
        \<lparr>requests = requests w @ [], server = server w\<rparr>)"
    using None by (simp add: processRow_missing_id baseSucceeds_def e_def)
  moreover have "subseq (map entry_column [e]) (rowColumns dl (filled r ols))"
    by (simp add: e_def entry_column_failure rowColumns_def)
  ultimately show ?thesis
    by (intro exI[of _ "[]"] exI[of _ "[e]"] exI[of _ "server w"] conjI) simp_all
next
  case f: (Some f)
  show ?thesis
  proof (cases "truthy_cell r dl")
    case None
    define e where "e = \<lparr>featureId = f, locale' = dl, action = CreateBase,
          error = Some (''Missing name for default locale \"'' @ dl @ ''\"''), row = r\<rparr>"
    have "snd (processRow E dl ols r (rep, w)) =
         (rep\<lparr>processedRows := processedRows rep +
               (if baseSucceeds E dl r w \<and> fst (processRow E dl ols r (rep, w)) = None
                then 1 else 0),
              successes := successes rep @ [], failures := failures rep @ [e]\<rparr>,
          \<lparr>requests = requests w @ [], server = server w\<rparr>)"
      using f None by (simp add: processRow_missing_name baseSucceeds_def e_def)
    moreover have "subseq (map entry_column [e]) (rowColumns dl (filled r ols))"
      by (simp add: e_def entry_column_failure rowColumns_def)
    ultimately show ?thesis
      by (intro exI[of _ "[]"] exI[of _ "[e]"] exI[of _ "server w"] conjI) simp_all
  next
    case n: (Some n)
    obtain res w1 where bs: "baseStep E dl f n w = (res, w1)"
      by (cases "baseStep E dl f n w")
    show ?thesis
    proof (cases res)
      case (Inl err)
      from baseStep_failure[OF bs[unfolded Inl]] obtain rq where
        rq: "requests w1 = requests w @ rq" "\<forall>q\<in>set rq. request_locale q \<in> {None, Some dl}"
        by blast
      have nb: "\<not> baseSucceeds E dl r w"
        using baseSucceeds_iff[OF f n bs] Inl by simp
      have rql: "\<forall>q\<in>set rq. request_locale q \<in> {None, Some dl} \<union> Some ` set (filled r ols)"
        using rq(2) by auto
      show ?thesis
      proof (cases "formatError E err")
        case thrown: (Inl x)
        have "snd (processRow E dl ols r (rep, w)) =
           (rep\<lparr>processedRows := processedRows rep +
               (if baseSucceeds E dl r w \<and> fst (processRow E dl ols r (rep, w)) = None
                then 1 else 0),
                successes := successes rep @ [], failures := failures rep @ []\<rparr>,
            \<lparr>requests = requests w @ rq, server = server w1\<rparr>)"
          using processRow_base_unformattable[OF f n bs[unfolded Inl] thrown, of ols rep] rq(1) nb
          by simp
        with rql show ?thesis
          by (intro exI[of _ "[]"] exI[of _ rq] exI[of _ "server w1"] conjI) simp_all
      next
        case (Inr msg)
        define e where "e = \<lparr>featureId = f, locale' = dl, action = CreateBase,
            error = msg, row = r\<rparr>"
        have "snd (processRow E dl ols r (rep, w)) =
           (rep\<lparr>processedRows := processedRows rep +
               (if baseSucceeds E dl r w \<and> fst (processRow E dl ols r (rep, w)) = None
                then 1 else 0),
                successes := successes rep @ [], failures := failures rep @ [e]\<rparr>,
            \<lparr>requests = requests w @ rq, server = server w1\<rparr>)"
          using processRow_base_failure[OF f n bs[unfolded Inl] Inr, of ols rep] rq(1) nb
          by (simp add: e_def)
        moreover have "subseq (map entry_column [e]) (rowColumns dl (filled r ols))"
          by (simp add: e_def entry_column_failure rowColumns_def)
        ultimately show ?thesis using rql
          by (intro exI[of _ "[]"] exI[of _ "[e]"] exI[of _ rq] exI[of _ "server w1"] conjI)
             simp_all
      qed
    next
      case (Inr entry)
      from baseStep_success[OF bs[unfolded Inr]] obtain rq0 where
        en: "featureId entry = f" "locale' entry = dl" "action entry \<in> {CreateBase, UpdateBase}"
        and rq0: "requests w1 = requests w @ rq0" "\<forall>q\<in>set rq0. request_locale q \<in> {None, Some dl}"
        by blast
      from processRow_base_success[OF f n bs[unfolded Inr], of ols rep] obtain ss fs rq sv where
        eq: "snd (processRow E dl ols r (rep, w)) =
           (rep\<lparr>processedRows := processedRows rep +
               (if fst (processRow E dl ols r (rep, w)) = None then 1 else 0),
              successes := successes rep @ entry # ss, failures := failures rep @ fs\<rparr>,
            \<lparr>requests = requests w1 @ rq, server = sv\<rparr>)"
        and s1: "subseq (map entry_column ss) (map (Pair True) (filled r ols))"
        and s2: "subseq (map entry_column fs) (map (Pair True) (filled r ols))"
        and s3: "\<forall>q\<in>set rq. \<exists>l n. q = PUT (documentId entry) l n \<and> l \<in> set (filled r ols)"
        by blast
      have "baseSucceeds E dl r w"
        using baseSucceeds_iff[OF f n bs] Inr by simp
      then have "snd (processRow E dl ols r (rep, w)) =
         (rep\<lparr>processedRows := processedRows rep +
               (if baseSucceeds E dl r w \<and> fst (processRow E dl ols r (rep, w)) = None
                then 1 else 0),
              successes := successes rep @ (entry # ss), failures := failures rep @ fs\<rparr>,
          \<lparr>requests = requests w @ (rq0 @ rq), server = sv\<rparr>)"
        using eq rq0(1) by simp
      moreover have "entry_column entry = (False, dl)"
        using en by (auto simp: entry_column_def)
      then have "subseq (map entry_column (entry # ss)) (rowColumns dl (filled r ols))"
        using s1 by (simp add: rowColumns_def)
      moreover have "subseq (map entry_column fs) (rowColumns dl (filled r ols))"
        using s2 by (auto simp: rowColumns_def intro: list_emb_Cons)
      moreover have "\<forall>q\<in>set (rq0 @ rq). request_locale q \<in> {None, Some dl} \<union> Some ` set (filled r ols)"
        using rq0(2) s3 by auto
      ultimately show ?thesis
        by (intro exI[of _ "entry # ss"] exI[of _ fs] exI[of _ "rq0 @ rq"] exI[of _ sv] conjI)
    qed
  qed
qed

lemma processRow_new:
  obtains ss fs rq where
    "successes (fst (snd (processRow E dl ols r st))) = successes (fst st) @ ss"
    "failures (fst (snd (processRow E dl ols r st))) = failures (fst st) @ fs"
    "requests (snd (snd (processRow E dl ols r st))) = requests (snd st) @ rq"
    "newSuccesses st (snd (processRow E dl ols r st)) = ss"
    "newFailures st (snd (processRow E dl ols r st)) = fs"
    "newRequests st (snd (processRow E dl ols r st)) = rq"
    "processedRows (fst (snd (processRow E dl ols r st))) =
       processedRows (fst st) +
       (if baseSucceeds E dl r (snd st) \<and> fst (processRow E dl ols r st) = None then 1 else 0)"
    "subseq (map entry_column ss) (rowColumns dl (filled r ols))"
    "subseq (map entry_column fs) (rowColumns dl (filled r ols))"
    "\<forall>q\<in>set rq. request_locale q \<in> {None, Some dl} \<union> Some ` set (filled r ols)"
proof -
  obtain rep w where st: "st = (rep, w)" by (cases st)
  from processRow_delta[of E dl ols r rep w] obtain ss fs rq sv where
    eq: "snd (processRow E dl ols r (rep, w)) =
       (rep\<lparr>processedRows := processedRows rep +
               (if baseSucceeds E dl r w \<and> fst (processRow E dl ols r (rep, w)) = None
                then 1 else 0),
            successes := successes rep @ ss, failures := failures rep @ fs\<rparr>,
        \<lparr>requests = requests w @ rq, server = sv\<rparr>)"
    and s: "subseq (map entry_column ss) (rowColumns dl (filled r ols))"
      "subseq (map entry_column fs) (rowColumns dl (filled r ols))"
      "\<forall>q\<in>set rq. request_locale q \<in> {None, Some dl} \<union> Some ` set (filled r ols)"
    by blast
  show thesis
    by (rule that[of ss fs rq])
       (use s in \<open>simp_all add: st eq newSuccesses_def newFailures_def newRequests_def\<close>)
qed

lemma locale_entries_not_base:
  assumes "subseq (map entry_column es) (map (Pair True) ls)"
  shows "filter (\<lambda>e. action e \<in> {CreateBase, UpdateBase}) es = []"
proof -
  have "action e = UpsertLocale" if "e \<in> set es" for e
  proof -
    from that have "entry_column e \<in> set (map entry_column es)" by simp
    with assms have "entry_column e \<in> set (map (Pair True) ls)" by (rule subseq_set)
    then show ?thesis by (auto simp: entry_column_def)
  qed
  then show ?thesis by (auto simp: filter_empty_conv)
qed

text \<open>The base step throws exactly when the find, the create or the update throws.\<close>

lemma baseStep_throws_iff:
  "(\<exists>w'. baseStep E dl f n w = (Inl err, w')) \<longleftrightarrow>
     (\<exists>w1. findDocumentByFeatureId E f w = (Inl err, w1))
     \<or> (\<exists>w1 w2. findDocumentByFeatureId E f w = (Inr None, w1)
           \<and> createBaseDocument E f n dl w1 = (Inl err, w2))
     \<or> (\<exists>existing w1 w2. findDocumentByFeatureId E f w = (Inr (Some existing), w1)
           \<and> upsertLocaleVersion E (ProFeature.documentId existing) dl n w1 = (Inl err, w2))"
  by (auto simp: baseStep_def split: prod.splits sum.splits option.splits)

lemma default_not_other:
  assumes "distinct headers" "2 \<le> length headers"
  shows "headers ! 1 \<notin> set (drop 2 headers)"
proof -
  from assms(2) obtain a b rest where "headers = a # b # rest"
    by (cases headers; cases "tl headers") auto
  with assms(1) show ?thesis by auto
qed

lemma processRows_successes:
  "successes (fst (snd (processRows E dl ols rows st))) =
     successes (fst st) @
     concat (map (\<lambda>(r, s). newSuccesses s (snd (processRow E dl ols r s)))
               (zip rows (statesBefore E dl ols rows st)))"
proof (induction rows arbitrary: st)
  case Nil
  show ?case by simp
next
  case (Cons r rs)
  obtain ss where n: "successes (fst (snd (processRow E dl ols r st))) = successes (fst st) @ ss"
    "newSuccesses st (snd (processRow E dl ols r st)) = ss"
    by (rule processRow_new[of E dl ols r st]) blast
  obtain t st1 where pr: "processRow E dl ols r st = (t, st1)"
    by (cases "processRow E dl ols r st")
  show ?case
  proof (cases t)
    case None
    with Cons.IH[of st1] n pr show ?thesis by simp
  next
    case (Some x)
    with n pr show ?thesis by simp
  qed
qed

lemma processRows_failures:
  "failures (fst (snd (processRows E dl ols rows st))) =
     failures (fst st) @
     concat (map (\<lambda>(r, s). newFailures s (snd (processRow E dl ols r s)))
               (zip rows (statesBefore E dl ols rows st)))"
proof (induction rows arbitrary: st)
  case Nil
  show ?case by simp
next
  case (Cons r rs)
  obtain fs where n: "failures (fst (snd (processRow E dl ols r st))) = failures (fst st) @ fs"
    "newFailures st (snd (processRow E dl ols r st)) = fs"
    by (rule processRow_new[of E dl ols r st]) blast
  obtain t st1 where pr: "processRow E dl ols r st = (t, st1)"
    by (cases "processRow E dl ols r st")
  show ?case
  proof (cases t)
    case None
    with Cons.IH[of st1] n pr show ?thesis by simp
  next
    case (Some x)
    with n pr show ?thesis by simp
  qed
qed

lemma row_entries_in_column_order:
  "subseq (map entry_column (newSuccesses st (snd (processRow E dl ols r st)))) (rowColumns dl ols)
   \<and> subseq (map entry_column (newFailures st (snd (processRow E dl ols r st)))) (rowColumns dl ols)"
proof -
  obtain ss fs where n:
    "newSuccesses st (snd (processRow E dl ols r st)) = ss"
    "newFailures st (snd (processRow E dl ols r st)) = fs"
    "subseq (map entry_column ss) (rowColumns dl (filled r ols))"
    "subseq (map entry_column fs) (rowColumns dl (filled r ols))"
    by (rule processRow_new[of E dl ols r st]) blast
  from n(3,4) rowColumns_filled[of dl r ols] show ?thesis
    unfolding n(1,2) by (blast intro: subseq_order.trans)
qed

text \<open>The count, whether the loop ends or a value is thrown out of it.\<close>

lemma processedRows_counts_completed_rows:
  "processedRows (fst (snd (processRows E dl ols rows st))) =
     processedRows (fst st) +
     length (filter (\<lambda>(r, s). baseSucceeds E dl r (snd s) \<and> fst (processRow E dl ols r s) = None)
               (zip rows (statesBefore E dl ols rows st)))"
proof (induction rows arbitrary: st)
  case Nil
  show ?case by simp
next
  case (Cons r rs)
  have n: "processedRows (fst (snd (processRow E dl ols r st))) =
       processedRows (fst st) +
       (if baseSucceeds E dl r (snd st) \<and> fst (processRow E dl ols r st) = None then 1 else 0)"
    by (rule processRow_new[of E dl ols r st])
  obtain t st1 where pr: "processRow E dl ols r st = (t, st1)"
    by (cases "processRow E dl ols r st")
  show ?case
  proof (cases t)
    case None
    with Cons.IH[of st1] n pr show ?thesis by simp
  next
    case (Some x)
    with n pr show ?thesis by simp
  qed
qed

lemma completed_rows:
  assumes "fst (processRows E dl ols rows st) = None"
    and "(r, s) \<in> set (zip rows (statesBefore E dl ols rows st))"
  shows "fst (processRow E dl ols r s) = None"
  using assms
proof (induction rows arbitrary: st)
  case Nil
  then show ?case by simp
next
  case (Cons r' rs)
  obtain t st1 where pr: "processRow E dl ols r' st = (t, st1)"
    by (cases "processRow E dl ols r' st")
  show ?case
  proof (cases t)
    case None
    from Cons.prems(1) pr None have p1: "fst (processRows E dl ols rs st1) = None"
      by simp
    from Cons.prems(2) pr None
    have "(r, s) = (r', st) \<or> (r, s) \<in> set (zip rs (statesBefore E dl ols rs st1))"
      by simp
    then show ?thesis
    proof
      assume "(r, s) = (r', st)"
      with pr None show ?thesis by simp
    next
      assume "(r, s) \<in> set (zip rs (statesBefore E dl ols rs st1))"
      with p1 show ?thesis by (rule Cons.IH)
    qed
  next
    case (Some x)
    with Cons.prems pr show ?thesis by simp
  qed
qed

lemma localeLoop_failure_step:
  assumes "truthy_cell r l = Some nm" and "upsertLocaleVersion E d l nm w = (Inl err, w1)"
    and "formatError E err = Inr msg"
  shows "localeLoop E d f r (l # ls) (rep, w) =
     localeLoop E d f r ls
       (rep\<lparr>failures := failures rep @
          [\<lparr>featureId = f, locale' = l, action = UpsertLocale,
            error = msg, row = r\<rparr>]\<rparr>, w1)"
  using assms by simp

lemma localeLoop_unformattable:
  assumes "truthy_cell r l = Some nm" and "upsertLocaleVersion E d l nm w = (Inl err, w1)"
    and "formatError E err = Inl thrown"
  shows "localeLoop E d f r (l # ls) (rep, w) = (Some thrown, rep, w1)"
  using assms by simp

lemma processCsv_completes:
  assumes "files p = Some c" and "csv_parse E c = Inr rows" and "rows \<noteq> []"
    and "headers = map fst (hd rows)"
    and "2 \<le> length headers" and "headers ! 0 = ''feature_id''"
    and "fst (processRows E (headers ! 1) (drop 2 headers) rows
                   (initReport (headers ! 1) (drop 2 headers), w)) = None"
  shows "processCsv E files p w =
     \<lparr>status = Returned,
      reportFile = Some (fst (snd (processRows E (headers ! 1) (drop 2 headers) rows
                   (initReport (headers ! 1) (drop 2 headers), w)))),
      world = snd (snd (processRows E (headers ! 1) (drop 2 headers) rows
                   (initReport (headers ! 1) (drop 2 headers), w)))\<rparr>"
  using assms by (auto simp: processCsv_def Let_def split: prod.splits option.splits)

lemma processCsv_thrown:
  assumes "files p = Some c" and "csv_parse E c = Inr rows" and "rows \<noteq> []"
    and "headers = map fst (hd rows)"
    and "2 \<le> length headers" and "headers ! 0 = ''feature_id''"
    and "fst (processRows E (headers ! 1) (drop 2 headers) rows
                   (initReport (headers ! 1) (drop 2 headers), w)) = Some thrown"
  shows "processCsv E files p w =
     \<lparr>status = Threw thrown, reportFile = None,
      world = snd (snd (processRows E (headers ! 1) (drop 2 headers) rows
                   (initReport (headers ! 1) (drop 2 headers), w)))\<rparr>"
  using assms by (auto simp: processCsv_def Let_def split: prod.splits option.splits)

text \<open>\<open>formatError\<close>, branch by branch.\<close>

lemma formatError_structured:
  assumes "truthy (getProp err ''response'')"
    and "getProp (getProp (getProp err ''response'') ''data'') ''error'' = e" and "truthy e"
    and "getProp e ''name'' = JStr nm" and "nm \<noteq> []"
    and "getProp e ''message'' = JStr msg" and "msg \<noteq> []"
  shows "formatError E err = Inr (Some (nm @ '': '' @ msg))"
  using assms by (simp add: formatError_def template_def Let_def)

lemma formatError_fallbacks:
  assumes "truthy (getProp err ''response'')"
    and "getProp (getProp (getProp err ''response'') ''data'') ''error'' = e" and "truthy e"
    and "\<not> truthy (getProp e ''name'')" and "\<not> truthy (getProp e ''message'')"
  shows "formatError E err =
     (case JSON_stringify E e of
        Inl thrown \<Rightarrow> Inl thrown
      | Inr None \<Rightarrow> Inr (Some ''Error: undefined'')
      | Inr (Some s) \<Rightarrow> Inr (Some (''Error: '' @ s)))"
  using assms
  by (simp add: formatError_def template_def Let_def split: sum.splits option.splits)

lemma formatError_conversion_throws:
  assumes "truthy (getProp err ''response'')"
    and "getProp (getProp (getProp err ''response'') ''data'') ''error'' = e" and "truthy e"
    and "truthy (getProp e ''name'')" and "template E (getProp e ''name'') = Inl thrown"
  shows "formatError E err = Inl thrown"
  using assms by (simp add: formatError_def Let_def)

lemma formatError_payload:
  assumes "truthy (getProp err ''response'')"
    and "\<not> truthy (getProp (getProp (getProp err ''response'') ''data'') ''error'')"
  shows "formatError E err = stringifyOrString E (getProp (getProp err ''response'') ''data'')"
  using assms by (simp add: formatError_def Let_def)

lemma formatError_no_response:
  assumes "\<not> truthy (getProp err ''response'')"
  shows "formatError E err =
     (case err of JErr n m kvs \<Rightarrow> Inr (Some m) | _ \<Rightarrow> stringifyOrString E err)"
  using assms by (simp add: formatError_def)

lemma stringifyOrString_undefined:
  assumes "JSON_stringify E v = Inr None"
  shows "stringifyOrString E v = Inr None"
  using assms by (simp add: stringifyOrString_def)

text \<open>
  The failure of the default-locale update of an existing record, for any remote: the entry
  is the one of the shared \<^verbatim>\<open>catch\<close>, labelled \<^verbatim>\<open>create-base\<close>.
\<close>

lemma update_failure_entry:
  assumes "truthy_cell r ''feature_id'' = Some f" and "truthy_cell r dl = Some n"
    and "findDocumentByFeatureId E f w = (Inr (Some existing), w1)"
    and "upsertLocaleVersion E (ProFeature.documentId existing) dl n w1 = (Inl err, w2)"
    and "formatError E err = Inr msg"
  shows "processRow E dl ols r (rep, w) =
     (None, rep\<lparr>failures := failures rep @
        [\<lparr>featureId = f, locale' = dl, action = CreateBase,
          error = msg, row = r\<rparr>]\<rparr>, w2)"
proof -
  have "baseStep E dl f n w = (Inl err, w2)"
    using assms(3,4) by (simp add: baseStep_def)
  then show ?thesis
    using assms(5) by (rule processRow_base_failure[OF assms(1,2)])
qed

lemma count_when_completed:
  assumes "fst (processRows E dl ols rows st) = None"
  shows "filter (\<lambda>(r, s). baseSucceeds E dl r (snd s) \<and> fst (processRow E dl ols r s) = None)
           (zip rows (statesBefore E dl ols rows st)) =
         filter (\<lambda>(r, s). baseSucceeds E dl r (snd s))
           (zip rows (statesBefore E dl ols rows st))"
  by (rule filter_cong) (auto dest: completed_rows[OF assms])

lemma final_report_count:
  assumes "reportFile (processCsv E files p w) = Some rep"
    and "files p = Some c" and "csv_parse E c = Inr rows" and "headers = map fst (hd rows)"
  shows "processedRows rep =
     length (filter (\<lambda>(r, s). baseSucceeds E (headers ! 1) r (snd s))
       (zip rows (statesBefore E (headers ! 1) (drop 2 headers) rows
          (initReport (headers ! 1) (drop 2 headers), w))))"
proof -
  let ?run = "processRows E (headers ! 1) (drop 2 headers) rows
                (initReport (headers ! 1) (drop 2 headers), w)"
  from assms have fin: "fst ?run = None" and rep: "rep = fst (snd ?run)"
    by (auto simp: processCsv_def Let_def split: if_splits prod.splits option.splits)
  have "processedRows (fst (snd ?run)) =
      processedRows (fst (initReport (headers ! 1) (drop 2 headers), w)) +
      length (filter (\<lambda>(r, s). baseSucceeds E (headers ! 1) r (snd s)
                \<and> fst (processRow E (headers ! 1) (drop 2 headers) r s) = None)
        (zip rows (statesBefore E (headers ! 1) (drop 2 headers) rows
          (initReport (headers ! 1) (drop 2 headers), w))))"
    by (rule processedRows_counts_completed_rows)
  then show ?thesis
    unfolding count_when_completed[OF fin] by (simp add: rep initReport_def)
qed

section \<open>What holds when the error of a failed call can be formatted\<close>

text \<open>
  The properties below are those of a step in which \<open>formatError\<close> returns for the error of
  the failed call (only \<open>base_failure_never_upserts\<close> needs no such hypothesis). The template
  literal of line 53 can throw, and then they fail: see the claims C3, C4 and C9.
\<close>

lemma base_entry_once_when_formattable:
  assumes "truthy_cell r ''feature_id'' = Some f" and "truthy_cell r dl = Some n"
    and "\<And>err w1. baseStep E dl f n (snd st) = (Inl err, w1) \<Longrightarrow> \<exists>msg. formatError E err = Inr msg"
  shows "prefix (successes (fst st)) (successes (fst (snd (processRow E dl ols r st))))
     \<and> prefix (failures (fst st)) (failures (fst (snd (processRow E dl ols r st))))
     \<and> length (filter (\<lambda>e. action e \<in> {CreateBase, UpdateBase})
                 (newSuccesses st (snd (processRow E dl ols r st))))
       + length (filter (\<lambda>e. action e \<in> {CreateBase, UpdateBase})
                 (newFailures st (snd (processRow E dl ols r st)))) = 1"
proof -
  obtain rep w where st: "st = (rep, w)" by (cases st)
  obtain res w1 where bs: "baseStep E dl f n w = (res, w1)"
    by (cases "baseStep E dl f n w")
  show ?thesis
  proof (cases res)
    case (Inl err)
    with assms(3) bs st obtain msg where "formatError E err = Inr msg" by auto
    from processRow_base_failure[OF assms(1,2) bs[unfolded Inl] this, of ols rep]
    show ?thesis
      by (simp add: st newSuccesses_def newFailures_def)
  next
    case (Inr entry)
    from baseStep_success[OF bs[unfolded Inr]]
    have en: "action entry \<in> {CreateBase, UpdateBase}" by blast
    from processRow_base_success[OF assms(1,2) bs[unfolded Inr], of ols rep] obtain ss fs rq sv where
      eq: "snd (processRow E dl ols r (rep, w)) =
         (rep\<lparr>processedRows := processedRows rep +
               (if fst (processRow E dl ols r (rep, w)) = None then 1 else 0),
            successes := successes rep @ entry # ss, failures := failures rep @ fs\<rparr>,
          \<lparr>requests = requests w1 @ rq, server = sv\<rparr>)"
      and s1: "subseq (map entry_column ss) (map (Pair True) (filled r ols))"
      and s2: "subseq (map entry_column fs) (map (Pair True) (filled r ols))"
      by blast
    show ?thesis
      using en locale_entries_not_base[OF s1] locale_entries_not_base[OF s2]
      by (simp add: st eq newSuccesses_def newFailures_def)
  qed
qed

lemma base_failure_skips_locales_when_formattable:
  assumes "truthy_cell r ''feature_id'' = Some f" and "truthy_cell r dl = Some n"
    and "baseStep E dl f n (snd st) = (Inl err, w1)" and "formatError E err = Inr msg"
  shows "newSuccesses st (snd (processRow E dl ols r st)) = []
     \<and> length (newFailures st (snd (processRow E dl ols r st))) = 1
     \<and> (\<forall>e\<in>set (newFailures st (snd (processRow E dl ols r st))). action e \<noteq> UpsertLocale)
     \<and> snd (snd (processRow E dl ols r st)) = w1
     \<and> processedRows (fst (snd (processRow E dl ols r st))) = processedRows (fst st)
     \<and> processRows E dl ols (r # rs) st =
         processRows E dl ols rs
           ((fst st)\<lparr>failures := failures (fst st) @
              [\<lparr>featureId = f, locale' = dl, action = CreateBase,
                error = msg, row = r\<rparr>]\<rparr>, w1)"
proof -
  obtain rep w where st: "st = (rep, w)" by (cases st)
  show ?thesis
    using processRow_base_failure[OF assms(1,2), of E w err w1 msg ols rep] assms(3,4)
    by (simp add: st newSuccesses_def newFailures_def)
qed

lemma base_failure_never_upserts:
  assumes "truthy_cell r ''feature_id'' = Some f" and "truthy_cell r dl = Some n"
    and "baseStep E dl f n (snd st) = (Inl err, w1)"
  shows "newSuccesses st (snd (processRow E dl ols r st)) = []
     \<and> (\<forall>e\<in>set (newFailures st (snd (processRow E dl ols r st))). action e \<noteq> UpsertLocale)
     \<and> snd (snd (processRow E dl ols r st)) = w1"
proof -
  obtain rep w where st: "st = (rep, w)" by (cases st)
  show ?thesis
  proof (cases "formatError E err")
    case (Inl x)
    from processRow_base_unformattable[OF assms(1,2) _ this, of w w1 ols rep] assms(3)
    show ?thesis by (simp add: st newSuccesses_def newFailures_def)
  next
    case (Inr msg)
    from processRow_base_failure[OF assms(1,2) _ this, of w w1 ols rep] assms(3)
    show ?thesis by (simp add: st newSuccesses_def newFailures_def)
  qed
qed

lemma remote_errors_recorded_when_formattable:
  "(truthy_cell r ''feature_id'' = Some f \<and> truthy_cell r dl = Some n
      \<and> ((\<exists>w'. findDocumentByFeatureId E f w = (Inl err, w'))
         \<or> (\<exists>w1 w'. findDocumentByFeatureId E f w = (Inr None, w1)
               \<and> createBaseDocument E f n dl w1 = (Inl err, w'))
         \<or> (\<exists>existing w1 w'. findDocumentByFeatureId E f w = (Inr (Some existing), w1)
               \<and> upsertLocaleVersion E (ProFeature.documentId existing) dl n w1 = (Inl err, w')))
      \<and> formatError E err = Inr msg
     \<longrightarrow> (\<exists>w'. processRows E dl ols (r # rs) (rep, w) =
            processRows E dl ols rs
              (rep\<lparr>failures := failures rep @
                 [\<lparr>featureId = f, locale' = dl, action = CreateBase,
                   error = msg, row = r\<rparr>]\<rparr>, w')))
   \<and> (truthy_cell r l = Some nm \<and> upsertLocaleVersion E d l nm wl = (Inl errl, wl')
      \<and> formatError E errl = Inr msgl
     \<longrightarrow> localeLoop E d f r (l # ls) (rep, wl) =
           localeLoop E d f r ls
             (rep\<lparr>failures := failures rep @
                [\<lparr>featureId = f, locale' = l, action = UpsertLocale,
                  error = msgl, row = r\<rparr>]\<rparr>, wl'))"
proof (intro conjI impI)
  assume a: "truthy_cell r ''feature_id'' = Some f \<and> truthy_cell r dl = Some n
      \<and> ((\<exists>w'. findDocumentByFeatureId E f w = (Inl err, w'))
         \<or> (\<exists>w1 w'. findDocumentByFeatureId E f w = (Inr None, w1)
               \<and> createBaseDocument E f n dl w1 = (Inl err, w'))
         \<or> (\<exists>existing w1 w'. findDocumentByFeatureId E f w = (Inr (Some existing), w1)
               \<and> upsertLocaleVersion E (ProFeature.documentId existing) dl n w1 = (Inl err, w')))
      \<and> formatError E err = Inr msg"
  then obtain w' where "baseStep E dl f n w = (Inl err, w')"
    using baseStep_throws_iff[of E dl f n w err] by blast
  with a have "processRow E dl ols r (rep, w) =
      (None, rep\<lparr>failures := failures rep @
         [\<lparr>featureId = f, locale' = dl, action = CreateBase,
           error = msg, row = r\<rparr>]\<rparr>, w')"
    by (simp add: processRow_base_failure)
  then show "\<exists>w'. processRows E dl ols (r # rs) (rep, w) =
            processRows E dl ols rs
              (rep\<lparr>failures := failures rep @
                 [\<lparr>featureId = f, locale' = dl, action = CreateBase,
                   error = msg, row = r\<rparr>]\<rparr>, w')"
    by auto
next
  assume "truthy_cell r l = Some nm \<and> upsertLocaleVersion E d l nm wl = (Inl errl, wl')
      \<and> formatError E errl = Inr msgl"
  then show "localeLoop E d f r (l # ls) (rep, wl) =
           localeLoop E d f r ls
             (rep\<lparr>failures := failures rep @
                [\<lparr>featureId = f, locale' = l, action = UpsertLocale,
                  error = msgl, row = r\<rparr>]\<rparr>, wl')"
    by (simp add: localeLoop_failure_step)
qed

section \<open>A second run takes the update path\<close>

text \<open>
  Against a remote that keeps its records, a row whose base step succeeded in a first run is
  found in a second run of the same rows: its base step then issues the GET and the PUT of the
  default locale, never a POST, and an entry it pushes is an \<^verbatim>\<open>update-base\<close> success.
  (When that PUT throws, the entry is the failure of \<open>update_failure_entry\<close>.)
\<close>

lemma find_server:
  "findDocumentByFeatureId E f w = (res, w1) \<Longrightarrow> server w1 = snd (client_get E f (server w))"
  by (auto simp: findDocumentByFeatureId_def split: prod.splits)

lemma create_server:
  "createBaseDocument E f n l w = (res, w1) \<Longrightarrow> server w1 = snd (client_post E f n l (server w))"
  by (auto simp: createBaseDocument_def split: prod.splits)

lemma upsert_server:
  "upsertLocaleVersion E d l n w = (res, w1) \<Longrightarrow> server w1 = snd (client_put E d l n (server w))"
  by (auto simp: upsertLocaleVersion_def split: prod.splits)

lemma find_iff_discoverable:
  "(\<exists>existing w1. findDocumentByFeatureId E f w = (Inr (Some existing), w1))
     \<longleftrightarrow> discoverable E (server w) f"
  by (auto simp: findDocumentByFeatureId_def discoverable_def
      split: prod.splits sum.splits list.splits)

lemma baseStep_keeps:
  assumes "keepsRecords E" and "discoverable E (server w) g"
  shows "discoverable E (server (snd (baseStep E dl f n w))) g"
proof -
  obtain r1 w1 where f1: "findDocumentByFeatureId E f w = (r1, w1)"
    by (cases "findDocumentByFeatureId E f w")
  have d1: "discoverable E (server w1) g"
    using assms find_server[OF f1] by (simp add: keepsRecords_def)
  show ?thesis
  proof (cases r1)
    case (Inl err)
    with f1 d1 show ?thesis by (simp add: baseStep_def)
  next
    case (Inr found)
    show ?thesis
    proof (cases found)
      case None
      obtain r2 w2 where c: "createBaseDocument E f n dl w1 = (r2, w2)"
        by (cases "createBaseDocument E f n dl w1")
      have "discoverable E (server w2) g"
        using assms(1) d1 create_server[OF c] by (simp add: keepsRecords_def)
      with f1 Inr None c show ?thesis
        by (cases r2) (simp_all add: baseStep_def)
    next
      case (Some existing)
      obtain r2 w2 where u: "upsertLocaleVersion E (ProFeature.documentId existing) dl n w1 = (r2, w2)"
        by (cases "upsertLocaleVersion E (ProFeature.documentId existing) dl n w1")
      have "discoverable E (server w2) g"
        using assms(1) d1 upsert_server[OF u] by (simp add: keepsRecords_def)
      with f1 Inr Some u show ?thesis
        by (cases r2) (simp_all add: baseStep_def)
    qed
  qed
qed

lemma baseStep_success_discoverable:
  assumes "keepsRecords E" and "baseStep E dl f n w = (Inr entry, w')"
  shows "discoverable E (server w') f"
proof -
  obtain r1 w1 where f1: "findDocumentByFeatureId E f w = (r1, w1)"
    by (cases "findDocumentByFeatureId E f w")
  show ?thesis
  proof (cases r1)
    case (Inl err)
    with f1 assms(2) show ?thesis by (simp add: baseStep_def)
  next
    case (Inr found)
    show ?thesis
    proof (cases found)
      case None
      obtain r2 w2 where c: "createBaseDocument E f n dl w1 = (r2, w2)"
        by (cases "createBaseDocument E f n dl w1")
      with f1 Inr None assms(2) obtain doc where r2: "r2 = Inr doc" and w2: "w2 = w'"
        by (cases r2) (simp_all add: baseStep_def)
      from c r2 have "client_post E f n dl (server w1) = (Inr doc, server w2)"
        by (auto simp: createBaseDocument_def split: prod.splits)
      with assms(1) w2 show ?thesis by (auto simp: keepsRecords_def)
    next
      case (Some existing)
      have "discoverable E (server w) f"
        using f1 Inr Some find_iff_discoverable[of E f w] by blast
      then have "discoverable E (server (snd (baseStep E dl f n w))) f"
        by (rule baseStep_keeps[OF assms(1)])
      with assms(2) show ?thesis by simp
    qed
  qed
qed

lemma localeLoop_keeps:
  assumes "keepsRecords E"
  shows "discoverable E (server w) g \<Longrightarrow>
     discoverable E (server (snd (snd (localeLoop E d f r ls (rep, w))))) g"
proof (induction ls arbitrary: rep w)
  case Nil
  then show ?case by simp
next
  case (Cons l ls)
  show ?case
  proof (cases "truthy_cell r l")
    case None
    with Cons show ?thesis by simp
  next
    case (Some nm)
    obtain res w1 where u: "upsertLocaleVersion E d l nm w = (res, w1)"
      by (cases "upsertLocaleVersion E d l nm w")
    have d1: "discoverable E (server w1) g"
      using assms Cons.prems upsert_server[OF u] by (simp add: keepsRecords_def)
    show ?thesis
    proof (cases res)
      case (Inl err)
      with Cons.IH[OF d1] Some u d1 show ?thesis
        by (cases "formatError E err") simp_all
    next
      case (Inr doc)
      with Cons.IH[OF d1] Some u show ?thesis by simp
    qed
  qed
qed

lemma processRow_keeps:
  assumes "keepsRecords E" and "discoverable E (server (snd st)) g"
  shows "discoverable E (server (snd (snd (processRow E dl ols r st)))) g"
proof -
  obtain rep w where st: "st = (rep, w)" by (cases st)
  show ?thesis
  proof (cases "truthy_cell r ''feature_id''")
    case None
    with assms(2) show ?thesis by (simp add: st processRow_missing_id)
  next
    case f: (Some f)
    show ?thesis
    proof (cases "truthy_cell r dl")
      case None
      with f assms(2) show ?thesis by (simp add: st processRow_missing_name)
    next
      case n: (Some n)
      obtain res w1 where bs: "baseStep E dl f n w = (res, w1)"
        by (cases "baseStep E dl f n w")
      have d1: "discoverable E (server w1) g"
        using baseStep_keeps[OF assms(1), of w g dl f n] assms(2) bs by (simp add: st)
      show ?thesis
      proof (cases res)
        case (Inl err)
        with f n bs d1 show ?thesis
          by (cases "formatError E err")
             (simp_all add: st processRow_base_failure processRow_base_unformattable)
      next
        case (Inr entry)
        have "discoverable E (server (snd (snd (localeLoop E (documentId entry) f r ols
                (rep\<lparr>successes := successes rep @ [entry]\<rparr>, w1))))) g"
          by (rule localeLoop_keeps[OF assms(1) d1])
        with f n bs Inr show ?thesis
          by (auto simp: st processRow_def split: prod.splits option.splits)
      qed
    qed
  qed
qed

lemma processRows_keeps:
  assumes "keepsRecords E"
  shows "discoverable E (server (snd st)) g \<Longrightarrow>
     discoverable E (server (snd (snd (processRows E dl ols rows st)))) g"
proof (induction rows arbitrary: st)
  case Nil
  then show ?case by simp
next
  case (Cons r rs)
  have d: "discoverable E (server (snd (snd (processRow E dl ols r st)))) g"
    by (rule processRow_keeps[OF assms Cons.prems])
  obtain t st1 where pr: "processRow E dl ols r st = (t, st1)"
    by (cases "processRow E dl ols r st")
  with d Cons.IH[of st1] show ?case by (cases t) simp_all
qed

lemma processRow_success_discoverable:
  assumes "keepsRecords E" and "baseSucceeds E dl r (snd st)"
    and "truthy_cell r ''feature_id'' = Some f"
  shows "discoverable E (server (snd (snd (processRow E dl ols r st)))) f"
proof -
  obtain rep w where st: "st = (rep, w)" by (cases st)
  from assms(2,3) obtain n where n: "truthy_cell r dl = Some n"
    by (cases "truthy_cell r dl") (simp_all add: baseSucceeds_def)
  obtain res w1 where bs: "baseStep E dl f n w = (res, w1)"
    by (cases "baseStep E dl f n w")
  with assms(2,3) n obtain entry where res: "res = Inr entry"
    by (cases res) (simp_all add: baseSucceeds_def st)
  have d1: "discoverable E (server w1) f"
    using baseStep_success_discoverable[OF assms(1)] bs res by blast
  have "discoverable E (server (snd (snd (localeLoop E (documentId entry) f r ols
                (rep\<lparr>successes := successes rep @ [entry]\<rparr>, w1))))) f"
    by (rule localeLoop_keeps[OF assms(1) d1])
  with assms(3) n bs res show ?thesis
    by (auto simp: st processRow_def split: prod.splits option.splits)
qed

lemma first_run_discoverable:
  assumes "keepsRecords E"
  shows "i < length (statesBefore E dl ols rows st) \<Longrightarrow>
     baseSucceeds E dl (rows ! i) (snd (statesBefore E dl ols rows st ! i)) \<Longrightarrow>
     truthy_cell (rows ! i) ''feature_id'' = Some f \<Longrightarrow>
     discoverable E (server (snd (snd (processRows E dl ols rows st)))) f"
proof (induction rows arbitrary: st i)
  case Nil
  then show ?case by simp
next
  case (Cons r rs)
  obtain t st1 where pr: "processRow E dl ols r st = (t, st1)"
    by (cases "processRow E dl ols r st")
  show ?case
  proof (cases i)
    case 0
    with Cons.prems have "discoverable E (server (snd (snd (processRow E dl ols r st)))) f"
      by (simp add: processRow_success_discoverable[OF assms])
    with pr have d: "discoverable E (server (snd st1)) f" by simp
    show ?thesis
    proof (cases t)
      case None
      with pr processRows_keeps[OF assms d, of dl ols rs] show ?thesis by simp
    next
      case (Some x)
      with pr d show ?thesis by simp
    qed
  next
    case (Suc j)
    show ?thesis
    proof (cases t)
      case None
      with Cons.prems Suc pr Cons.IH[of j st1] show ?thesis by simp
    next
      case (Some x)
      with Cons.prems(1) Suc pr show ?thesis by simp
    qed
  qed
qed

lemma later_row_discoverable:
  assumes "keepsRecords E"
  shows "discoverable E (server (snd st)) f \<Longrightarrow> i < length (statesBefore E dl ols rows st) \<Longrightarrow>
     discoverable E (server (snd (statesBefore E dl ols rows st ! i))) f"
proof (induction rows arbitrary: st i)
  case Nil
  then show ?case by simp
next
  case (Cons r rs)
  obtain t st1 where pr: "processRow E dl ols r st = (t, st1)"
    by (cases "processRow E dl ols r st")
  show ?case
  proof (cases i)
    case 0
    with Cons.prems show ?thesis by simp
  next
    case (Suc j)
    have d: "discoverable E (server (snd st1)) f"
      using processRow_keeps[OF assms Cons.prems(1), of dl ols r] pr by simp
    show ?thesis
    proof (cases t)
      case None
      with Cons.prems(2) Suc pr Cons.IH[OF d, of j] show ?thesis by simp
    next
      case (Some x)
      with Cons.prems(2) Suc pr show ?thesis by simp
    qed
  qed
qed

lemma baseStep_discoverable:
  assumes "discoverable E (server w) f" and "baseStep E dl f n w = (res, w')"
  shows "(\<exists>d. requests w' = requests w @ [GET f, PUT d dl n])
     \<and> (\<forall>entry. res = Inr entry \<longrightarrow> action entry = UpdateBase)"
proof -
  from assms(1) obtain existing w1 where
    f1: "findDocumentByFeatureId E f w = (Inr (Some existing), w1)"
    using find_iff_discoverable[of E f w] by blast
  obtain r2 w2 where u: "upsertLocaleVersion E (ProFeature.documentId existing) dl n w1 = (r2, w2)"
    by (cases "upsertLocaleVersion E (ProFeature.documentId existing) dl n w1")
  from f1 u assms(2) have "w' = w2" and "\<forall>entry. res = Inr entry \<longrightarrow> action entry = UpdateBase"
    by (cases r2; auto simp: baseStep_def)+
  moreover have "requests w2 = requests w @ [GET f, PUT (ProFeature.documentId existing) dl n]"
    using findDocumentByFeatureId_requests[OF f1] upsertLocaleVersion_requests[OF u] by simp
  ultimately show ?thesis by blast
qed

lemma second_run_takes_update_path:
  assumes keeps: "keepsRecords E"
    and reached1: "i < length (statesBefore E dl ols rows st1)"
    and f: "truthy_cell (rows ! i) ''feature_id'' = Some f"
    and first: "baseSucceeds E dl (rows ! i) (snd (statesBefore E dl ols rows st1 ! i))"
    and again: "snd st2 = snd (snd (processRows E dl ols rows st1))"
    and reached2: "i < length (statesBefore E dl ols rows st2)"
    and second: "baseStep E dl f n (snd (statesBefore E dl ols rows st2 ! i)) = (res, w')"
  shows "(\<exists>d. requests w' = requests (snd (statesBefore E dl ols rows st2 ! i)) @ [GET f, PUT d dl n])
     \<and> (\<forall>entry. res = Inr entry \<longrightarrow> action entry = UpdateBase)"
proof -
  have "discoverable E (server (snd (snd (processRows E dl ols rows st1)))) f"
    using reached1 first f by (rule first_run_discoverable[OF keeps])
  then have "discoverable E (server (snd st2)) f"
    using again by simp
  then have "discoverable E (server (snd (statesBefore E dl ols rows st2 ! i))) f"
    using reached2 by (rule later_row_discoverable[OF keeps])
  then show ?thesis
    using second by (rule baseStep_discoverable)
qed

lemma storeEnv_keepsRecords:
  assumes "\<forall>f. \<not> rejects (GET f)"
  shows "keepsRecords (storeEnv thrown rejects parse)"
  using assms by (auto simp: keepsRecords_def discoverable_def storeEnv_def Let_def filter_empty_conv
      split: if_splits)

section \<open>The claims\<close>

text \<open>
  C1. The claim: when an existing record is found by \<^verbatim>\<open>feature_id\<close> and the update of its
  default locale then fails, the failure entry has action \<^verbatim>\<open>update-base\<close>. The code
  records \<^verbatim>\<open>create-base\<close>: the one \<^verbatim>\<open>catch\<close> of line 184 serves the find, the create
  and the update, and line 192 writes \<^verbatim>\<open>create-base\<close> for all three. Here F1 is stored,
  the GET finds it, the PUT of locale \<open>en\<close> is rejected, and the row leaves one failure
  entry, whose action is \<open>CreateBase\<close>; the other locale is skipped.
\<close>

theorem update_failure_recorded_as_create_base:
  "findDocumentByFeatureId (demoEnv rejectDefaultPut) ''F1'' seededWorld =
     (Inr (Some docF1), \<lparr>requests = [GET ''F1''], server = [docF1]\<rparr>)
   \<and> fst (upsertLocaleVersion (demoEnv rejectDefaultPut) ''doc-F1'' ''en'' ''Hello''
            \<lparr>requests = [GET ''F1''], server = [docF1]\<rparr>) = Inl rejection
   \<and> processRow (demoEnv rejectDefaultPut) ''en'' [''vi''] row1
        (initReport ''en'' [''vi''], seededWorld) =
      (None,
       \<lparr>defaultLocale = ''en'', otherLocales = [''vi''], processedRows = 0, successes = [],
        failures = [\<lparr>featureId = ''F1'', locale' = ''en'', action = CreateBase,
                     error = Some ''ValidationError: Invalid payload'', row = row1\<rparr>]\<rparr>,
       \<lparr>requests = [GET ''F1'', PUT ''doc-F1'' ''en'' ''Hello''], server = [docF1]\<rparr>)"
  by code_simp

text \<open>
  C2, as stated, fails: when every request is rejected, both rows of the scenario pass the
  two presence checks, and the report counts no processed row (the \<^verbatim>\<open>continue\<close> of line 197
  comes before the increment of line 236).
\<close>

theorem processedRows_counterexample:
  "map_option processedRows (reportFile (firstRun rejectAll)) = Some 0
   \<and> length (filter (passesChecks ''en'') demoRows) = 2
   \<and> map_option processedRows (reportFile (firstRun rejectAll))
       \<noteq> Some (length (filter (passesChecks ''en'') demoRows))"
  by code_simp

text \<open>
  C2, amended: in a run that reaches the end of the loop, and so writes its report,
  \<open>processedRows\<close> grows by the number of rows that pass both presence checks and whose base
  step does not throw, each row taken in the state in which the loop reaches it; failures of
  the locale writes do not matter (the remote \<open>E\<close> is arbitrary). \<^verbatim>\<open>processCsv\<close> starts
  the loop from a report with \<open>processedRows = 0\<close> (\<open>final_report_count\<close>).
\<close>

theorem processedRows_counts_base_successes:
  assumes "fst (processRows E dl ols rows st) = None"
  shows "processedRows (fst (snd (processRows E dl ols rows st))) =
     processedRows (fst st) +
     length (filter (\<lambda>(r, s). baseSucceeds E dl r (snd s))
               (zip rows (statesBefore E dl ols rows st)))"
  using processedRows_counts_completed_rows[of E dl ols rows st]
  unfolding count_when_completed[OF assms] .

theorem processedRows_counts_base_successes_witness:
  "fst (processRows (demoEnv rejectDefaultPut) ''en'' [''vi''] demoRows
       (initReport ''en'' [''vi''], seededWorld)) = None
   \<and> processedRows (fst (snd (processRows (demoEnv rejectDefaultPut) ''en'' [''vi''] demoRows
       (initReport ''en'' [''vi''], seededWorld)))) = 1
   \<and> length (filter (\<lambda>(r, s). baseSucceeds (demoEnv rejectDefaultPut) ''en'' r (snd s))
        (zip demoRows (statesBefore (demoEnv rejectDefaultPut) ''en'' [''vi''] demoRows
           (initReport ''en'' [''vi''], seededWorld)))) = 1"
proof -
  have h: "fst (processRows (demoEnv rejectDefaultPut) ''en'' [''vi''] demoRows
       (initReport ''en'' [''vi''], seededWorld)) = None"
    by code_simp
  have "processedRows (fst (initReport ''en'' [''vi''], seededWorld)) = 0"
    by code_simp
  moreover have "processedRows (fst (snd (processRows (demoEnv rejectDefaultPut) ''en'' [''vi''] demoRows
       (initReport ''en'' [''vi''], seededWorld)))) = 1"
    by code_simp
  ultimately show ?thesis
    using h processedRows_counts_base_successes[OF h]
    by simp
qed

text \<open>
  C3. The claim: a row with a non-empty \<^verbatim>\<open>feature_id\<close> and a non-empty default-locale name
  appends exactly one entry, successes and failures together, whose action is
  \<^verbatim>\<open>create-base\<close> or \<^verbatim>\<open>update-base\<close>. The code appends none when the base step throws an
  error that \<^verbatim>\<open>formatError\<close> throws on: line 185 calls it inside the \<^verbatim>\<open>catch\<close>, before the
  push of line 189, and the template literal of line 53 is guarded by no \<^verbatim>\<open>try\<close>, unlike
  the two calls of \<^verbatim>\<open>JSON.stringify\<close> beside it. Here the GET of F1 is answered 400 with a
  body whose \<^verbatim>\<open>error.name\<close> is \<^verbatim>\<open>{"toString": 1, "valueOf": 1}\<close>: the conversion throws a
  \<^verbatim>\<open>TypeError\<close>, which leaves the row with the report as it was. Where \<open>formatError\<close>
  returns, the property holds (\<open>base_entry_once_when_formattable\<close>).
\<close>

theorem unformattable_base_error_leaves_no_entry:
  "truthy_cell row1 ''feature_id'' = Some ''F1'' \<and> truthy_cell row1 ''en'' = Some ''Hello''
   \<and> findDocumentByFeatureId (oddEnv rejectAll) ''F1'' emptyWorld =
       (Inl oddRejection, \<lparr>requests = [GET ''F1''], server = []\<rparr>)
   \<and> template (oddEnv rejectAll) (JObj [(''toString'', JNum 1), (''valueOf'', JNum 1)]) =
       Inl typeError
   \<and> formatError (oddEnv rejectAll) oddRejection = Inl typeError
   \<and> processRow (oddEnv rejectAll) ''en'' [''vi''] row1 (initReport ''en'' [''vi''], emptyWorld) =
       (Some typeError, initReport ''en'' [''vi''], \<lparr>requests = [GET ''F1''], server = []\<rparr>)
   \<and> length (filter (\<lambda>e. action e \<in> {CreateBase, UpdateBase})
        (newSuccesses (initReport ''en'' [''vi''], emptyWorld)
           (snd (processRow (oddEnv rejectAll) ''en'' [''vi''] row1
              (initReport ''en'' [''vi''], emptyWorld)))))
     + length (filter (\<lambda>e. action e \<in> {CreateBase, UpdateBase})
        (newFailures (initReport ''en'' [''vi''], emptyWorld)
           (snd (processRow (oddEnv rejectAll) ''en'' [''vi''] row1
              (initReport ''en'' [''vi''], emptyWorld))))) = 0"
  by code_simp

text \<open>
  C4. The claim: when the base step of a row fails, no \<^verbatim>\<open>upsert-locale\<close> entry is appended
  for the row and processing continues with the next row. The first half holds for any
  remote (\<open>base_failure_never_upserts\<close>). The second fails when \<^verbatim>\<open>formatError\<close> throws on
  the error (line 185, inside the \<^verbatim>\<open>catch\<close>; the defect of C3): the value thrown leaves the
  loop. Here every request is answered 400 with the body of C3: the loop ends in row F1 after
  its GET, and row F2 is never started, whereas with an error that can be formatted both rows
  are. Where \<open>formatError\<close> returns, the loop goes on
  (\<open>base_failure_skips_locales_when_formattable\<close>).
\<close>

theorem unformattable_base_error_ends_loop:
  "baseStep (oddEnv rejectAll) ''en'' ''F1'' ''Hello'' emptyWorld =
       (Inl oddRejection, \<lparr>requests = [GET ''F1''], server = []\<rparr>)
   \<and> processRows (oddEnv rejectAll) ''en'' [''vi''] [row1, row2]
        (initReport ''en'' [''vi''], emptyWorld) =
       (Some typeError, initReport ''en'' [''vi''], \<lparr>requests = [GET ''F1''], server = []\<rparr>)
   \<and> statesBefore (oddEnv rejectAll) ''en'' [''vi''] [row1, row2]
        (initReport ''en'' [''vi''], emptyWorld) = [(initReport ''en'' [''vi''], emptyWorld)]
   \<and> requests (snd (snd (processRows (demoEnv rejectAll) ''en'' [''vi''] [row1, row2]
        (initReport ''en'' [''vi''], emptyWorld)))) = [GET ''F1'', GET ''F2'']"
  by code_simp

text \<open>
  C5. The header is the list of keys of a record, hence distinct; the default locale is its
  second key and the other locales are the keys from the third on. For a locale column whose
  cell is empty in a row, that row appends no success and no failure with this locale, and
  issues no request that names it, whether the row ends or a value is thrown out of it.
\<close>

theorem empty_cell_leaves_no_trace:
  assumes "distinct headers" and "2 \<le> length headers"
    and "l \<in> set (drop 2 headers)" and "truthy_cell r l = None"
  shows "(\<forall>e\<in>set (newSuccesses st (snd (processRow E (headers ! 1) (drop 2 headers) r st))).
            locale' e \<noteq> l)
     \<and> (\<forall>e\<in>set (newFailures st (snd (processRow E (headers ! 1) (drop 2 headers) r st))).
            locale' e \<noteq> l)
     \<and> (\<forall>q\<in>set (newRequests st (snd (processRow E (headers ! 1) (drop 2 headers) r st))).
           request_locale q \<noteq> Some l)"
proof -
  let ?dl = "headers ! 1" and ?ols = "drop 2 headers"
  have ldl: "l \<noteq> ?dl"
    using default_not_other[OF assms(1,2)] assms(3) by auto
  have lfilled: "l \<notin> set (filled r ?ols)"
    using assms(4) by (simp add: filled_def)
  have cols: "locale' e \<noteq> l" if "subseq (map entry_column es) (rowColumns ?dl (filled r ?ols))"
    and "e \<in> set es" for e :: "'x ReportEntry_scheme" and es
  proof -
    from that(2) have "entry_column e \<in> set (map entry_column es)" by simp
    with that(1) have "entry_column e \<in> set (rowColumns ?dl (filled r ?ols))"
      by (rule subseq_set)
    then show ?thesis
      using ldl lfilled by (auto simp: rowColumns_def entry_column_def)
  qed
  obtain ss fs rq where n:
    "newSuccesses st (snd (processRow E ?dl ?ols r st)) = ss"
    "newFailures st (snd (processRow E ?dl ?ols r st)) = fs"
    "newRequests st (snd (processRow E ?dl ?ols r st)) = rq"
    "subseq (map entry_column ss) (rowColumns ?dl (filled r ?ols))"
    "subseq (map entry_column fs) (rowColumns ?dl (filled r ?ols))"
    "\<forall>q\<in>set rq. request_locale q \<in> {None, Some ?dl} \<union> Some ` set (filled r ?ols)"
    by (rule processRow_new[of E ?dl ?ols r st]) blast
  have "\<forall>e\<in>set ss. locale' e \<noteq> l" using cols[OF n(4)] by blast
  moreover have "\<forall>e\<in>set fs. locale' e \<noteq> l" using cols[OF n(5)] by blast
  moreover have "\<forall>q\<in>set rq. request_locale q \<noteq> Some l"
    using n(6) ldl lfilled by auto
  ultimately show ?thesis unfolding n(1,2,3) by blast
qed

theorem empty_cell_leaves_no_trace_witness:
  "distinct [''feature_id'', ''en'', ''vi''] \<and> 2 \<le> length [''feature_id'', ''en'', ''vi'']
   \<and> ''vi'' \<in> set (drop 2 [''feature_id'', ''en'', ''vi'']) \<and> truthy_cell row2 ''vi'' = None
   \<and> ''vi'' \<notin> locale' ` set (newSuccesses (initReport ''en'' [''vi''], emptyWorld)
                 (snd (processRow (demoEnv acceptAll) ([''feature_id'', ''en'', ''vi''] ! 1)
                    (drop 2 [''feature_id'', ''en'', ''vi'']) row2
                    (initReport ''en'' [''vi''], emptyWorld))))
   \<and> ''vi'' \<notin> locale' ` set (newFailures (initReport ''en'' [''vi''], emptyWorld)
                 (snd (processRow (demoEnv acceptAll) ([''feature_id'', ''en'', ''vi''] ! 1)
                    (drop 2 [''feature_id'', ''en'', ''vi'']) row2
                    (initReport ''en'' [''vi''], emptyWorld))))
   \<and> Some ''vi'' \<notin> request_locale ` set (newRequests (initReport ''en'' [''vi''], emptyWorld)
                 (snd (processRow (demoEnv acceptAll) ([''feature_id'', ''en'', ''vi''] ! 1)
                    (drop 2 [''feature_id'', ''en'', ''vi'']) row2
                    (initReport ''en'' [''vi''], emptyWorld))))"
proof -
  have h1: "distinct [''feature_id'', ''en'', ''vi'']" by simp
  have h2: "2 \<le> length [''feature_id'', ''en'', ''vi'']" by simp
  have h3: "''vi'' \<in> set (drop 2 [''feature_id'', ''en'', ''vi''])" by simp
  have h4: "truthy_cell row2 ''vi'' = None" by code_simp
  note t = empty_cell_leaves_no_trace[OF h1 h2 h3 h4,
        where st = "(initReport ''en'' [''vi''], emptyWorld)" and E = "demoEnv acceptAll"]
  from t have p1: "''vi'' \<notin> locale' ` set (newSuccesses (initReport ''en'' [''vi''], emptyWorld)
                 (snd (processRow (demoEnv acceptAll) ([''feature_id'', ''en'', ''vi''] ! 1)
                    (drop 2 [''feature_id'', ''en'', ''vi'']) row2
                    (initReport ''en'' [''vi''], emptyWorld))))"
    by auto
  from t have p2: "''vi'' \<notin> locale' ` set (newFailures (initReport ''en'' [''vi''], emptyWorld)
                 (snd (processRow (demoEnv acceptAll) ([''feature_id'', ''en'', ''vi''] ! 1)
                    (drop 2 [''feature_id'', ''en'', ''vi'']) row2
                    (initReport ''en'' [''vi''], emptyWorld))))"
    by auto
  from t have p3: "Some ''vi'' \<notin> request_locale ` set (newRequests (initReport ''en'' [''vi''], emptyWorld)
                 (snd (processRow (demoEnv acceptAll) ([''feature_id'', ''en'', ''vi''] ! 1)
                    (drop 2 [''feature_id'', ''en'', ''vi'']) row2
                    (initReport ''en'' [''vi''], emptyWorld))))"
    by auto
  from h1 h2 h3 h4 p1 p2 p3 show ?thesis
    by (intro conjI)
qed

text \<open>
  C6. The claim: on a second run of the same CSV, the rows that succeeded on the first run
  get \<^verbatim>\<open>update-base\<close> actions, not \<^verbatim>\<open>create-base\<close>. On the second run the records are
  found, so the update path is taken; but when that update is rejected, the entry the code
  records is labelled \<^verbatim>\<open>create-base\<close> (line 192, the defect of C1). Here the first run
  against the empty collection creates F1 and F2, and the second run, whose PUT of locale
  \<open>en\<close> is rejected, reports \<open>CreateBase\<close> for both.
\<close>

theorem second_run_failed_update_labelled_create_base:
  "map_option (\<lambda>rep. map (\<lambda>e. (featureId e, action e)) (successes rep))
       (reportFile (firstRun rejectDefaultPut)) =
     Some [(''F1'', CreateBase), (''F1'', UpsertLocale), (''F2'', CreateBase)]
   \<and> map_option failures (reportFile (firstRun rejectDefaultPut)) = Some []
   \<and> map_option successes (reportFile (secondRun rejectDefaultPut)) = Some []
   \<and> map_option (\<lambda>rep. map (\<lambda>e. (featureId e, action e)) (failures rep))
       (reportFile (secondRun rejectDefaultPut)) =
     Some [(''F1'', CreateBase), (''F2'', CreateBase)]
   \<and> requests (world (secondRun rejectDefaultPut)) =
       requests (world (firstRun rejectDefaultPut)) @
       [GET ''F1'', PUT ''doc-F1'' ''en'' ''Hello'', GET ''F2'', PUT ''doc-F2'' ''en'' ''World'']"
  by code_simp

text \<open>
  C7. A row whose \<^verbatim>\<open>feature_id\<close> is empty appends one failure entry, with action
  \<^verbatim>\<open>create-base\<close> and error \<^verbatim>\<open>Missing feature_id\<close>, and nothing else: nothing is thrown,
  the world is unchanged, so no request is issued, and \<open>processedRows\<close> is unchanged.
\<close>

theorem missing_feature_id_row:
  assumes "truthy_cell r ''feature_id'' = None"
  shows "processRow E dl ols r (rep, w) =
       (None,
        rep\<lparr>failures := failures rep @
          [\<lparr>featureId = [], locale' = dl, action = CreateBase,
            error = Some ''Missing feature_id'', row = r\<rparr>]\<rparr>, w)
     \<and> newRequests (rep, w) (snd (processRow E dl ols r (rep, w))) = []
     \<and> processedRows (fst (snd (processRow E dl ols r (rep, w)))) = processedRows rep"
  using assms by (simp add: processRow_missing_id newRequests_def)

theorem missing_feature_id_row_witness:
  "truthy_cell rowNoId ''feature_id'' = None
   \<and> processRow (demoEnv acceptAll) ''en'' [''vi''] rowNoId (initReport ''en'' [''vi''], emptyWorld) =
       (None,
        \<lparr>defaultLocale = ''en'', otherLocales = [''vi''], processedRows = 0, successes = [],
         failures = [\<lparr>featureId = [], locale' = ''en'', action = CreateBase,
                      error = Some ''Missing feature_id'', row = rowNoId\<rparr>]\<rparr>,
        emptyWorld)"
proof -
  have h: "truthy_cell rowNoId ''feature_id'' = None" by code_simp
  show ?thesis
    using h missing_feature_id_row[OF h, of "demoEnv acceptAll" "''en''" "[''vi'']"
        "initReport ''en'' [''vi'']" emptyWorld]
    by (simp add: initReport_def)
qed

text \<open>
  C8. The successes of the report are the entries each row appended, row after row in CSV
  order, and so are the failures. Within one row the appended entries follow the columns: the
  base entry first, then the locale entries in column order. This holds of the report in
  memory wherever the loop ends; it is the report written when the loop reaches its end.
\<close>

theorem report_order_follows_csv:
  "successes (fst (snd (processRows E dl ols rows st))) =
     successes (fst st) @
     concat (map (\<lambda>(r, s). newSuccesses s (snd (processRow E dl ols r s)))
               (zip rows (statesBefore E dl ols rows st)))
   \<and> failures (fst (snd (processRows E dl ols rows st))) =
     failures (fst st) @
     concat (map (\<lambda>(r, s). newFailures s (snd (processRow E dl ols r s)))
               (zip rows (statesBefore E dl ols rows st)))
   \<and> (\<forall>r s. subseq (map entry_column (newSuccesses s (snd (processRow E dl ols r s))))
                (rowColumns dl ols)
         \<and> subseq (map entry_column (newFailures s (snd (processRow E dl ols r s))))
                (rowColumns dl ols))"
  using processRows_successes[of E dl ols rows st] processRows_failures[of E dl ols rows st]
    row_entries_in_column_order[of _ E dl ols]
  by blast

theorem report_order_follows_csv_witness:
  "map entry_column (successes (fst (snd (processRows (demoEnv acceptAll) ''en'' [''vi''] demoRows
       (initReport ''en'' [''vi''], emptyWorld))))) =
     [(False, ''en''), (True, ''vi''), (False, ''en'')]
   \<and> successes (fst (snd (processRows (demoEnv acceptAll) ''en'' [''vi''] demoRows
       (initReport ''en'' [''vi''], emptyWorld)))) =
     successes (fst (initReport ''en'' [''vi''], emptyWorld)) @
     concat (map (\<lambda>(r, s). newSuccesses s (snd (processRow (demoEnv acceptAll) ''en'' [''vi''] r s)))
       (zip demoRows (statesBefore (demoEnv acceptAll) ''en'' [''vi''] demoRows
          (initReport ''en'' [''vi''], emptyWorld))))"
proof -
  have "map entry_column (successes (fst (snd (processRows (demoEnv acceptAll) ''en'' [''vi''] demoRows
       (initReport ''en'' [''vi''], emptyWorld))))) =
     [(False, ''en''), (True, ''vi''), (False, ''en'')]"
    by code_simp
  then show ?thesis
    using report_order_follows_csv[of "demoEnv acceptAll" "''en''" "[''vi'']" demoRows
        "(initReport ''en'' [''vi''], emptyWorld)"]
    by blast
qed

text \<open>
  C9. The claim: every error of a remote call is caught at the call site, formatted to a
  string and recorded, and none ends the run. The two \<^verbatim>\<open>catch\<close> blocks call
  \<^verbatim>\<open>formatError\<close> (lines 185 and 222), whose template literal of line 53 throws on a name
  or message that cannot be converted to a string; nothing catches that before
  \<^verbatim>\<open>main\<close>, which exits with code 1 (line 274), and line 247 is never reached. Here the
  remote answers 400 with the body of C3, to every request or to the PUT of locale \<open>vi\<close>
  only: either run ends with exit code 1 and no report, the remaining rows and locales
  untouched, whereas the same run with a body that can be formatted ends with exit code 0.
  Where \<open>formatError\<close> returns, the error is recorded and each loop goes on
  (\<open>remote_errors_recorded_when_formattable\<close>); what it returns is \<^verbatim>\<open>undefined\<close>, not a
  string, where \<^verbatim>\<open>JSON.stringify\<close> returns that (\<open>stringifyOrString_undefined\<close>).
\<close>

theorem unformattable_error_ends_run:
  "formatError (oddEnv rejectAll) oddRejection = Inl typeError
   \<and> main (oddEnv rejectAll) demoFiles (Some ''features.csv'') emptyWorld =
       \<lparr>status = Exited 1, reportFile = None,
        world = \<lparr>requests = [GET ''F1''], server = []\<rparr>\<rparr>
   \<and> status (main (oddEnv rejectLocalePut) demoFiles (Some ''features.csv'') emptyWorld) = Exited 1
   \<and> reportFile (main (oddEnv rejectLocalePut) demoFiles (Some ''features.csv'') emptyWorld) = None
   \<and> requests (world (main (oddEnv rejectLocalePut) demoFiles (Some ''features.csv'') emptyWorld)) =
       [GET ''F1'', POST ''F1'' ''Hello'' ''en'', PUT ''doc-F1'' ''vi'' ''Xin chao'']
   \<and> status (main (demoEnv rejectAll) demoFiles (Some ''features.csv'') emptyWorld) = Exited 0
   \<and> requests (world (main (demoEnv rejectAll) demoFiles (Some ''features.csv'') emptyWorld)) =
       [GET ''F1'', GET ''F2'']"
  by code_simp

text \<open>
  C10. When the file parses to no record, \<^verbatim>\<open>processCsv\<close> returns at line 85, before the
  header check of line 89: no report is written, the world is unchanged (no request), and
  \<^verbatim>\<open>main\<close> ends with exit code 0, whatever the header line of the file was.
\<close>

theorem empty_csv_returns_early:
  assumes "csvPath \<noteq> []" and "files csvPath = Some csvContent"
    and "csv_parse E csvContent = Inr []"
  shows "processCsv E files csvPath w = \<lparr>status = Returned, reportFile = None, world = w\<rparr>
     \<and> main E files (Some csvPath) w = \<lparr>status = Exited 0, reportFile = None, world = w\<rparr>"
  using assms by (simp add: processCsv_def main_def)

theorem empty_csv_returns_early_witness:
  "''empty.csv'' \<noteq> [] \<and> demoFiles ''empty.csv'' = Some ''id,en''
   \<and> csv_parse (demoEnv acceptAll) ''id,en'' = Inr []
   \<and> processCsv (demoEnv acceptAll) demoFiles ''empty.csv'' emptyWorld =
       \<lparr>status = Returned, reportFile = None, world = emptyWorld\<rparr>
   \<and> main (demoEnv acceptAll) demoFiles (Some ''empty.csv'') emptyWorld =
       \<lparr>status = Exited 0, reportFile = None, world = emptyWorld\<rparr>"
proof -
  have h1: "''empty.csv'' \<noteq> []" by simp
  have h2: "demoFiles ''empty.csv'' = Some ''id,en''" by code_simp
  have h3: "csv_parse (demoEnv acceptAll) ''id,en'' = Inr []" by code_simp
  show ?thesis
    using h1 h2 h3
      empty_csv_returns_early[where csvPath = "''empty.csv''" and files = demoFiles
        and csvContent = "''id,en''" and E = "demoEnv acceptAll" and w = emptyWorld]
    by blast
qed

end
